theory Spec2Isabelle
  imports Main
begin

unbundle bit_operations_syntax

section \<open>Checksum codec\<close>

text \<open>
  The reference implementation works on Python's unbounded integers, which are modelled
  by \<^typ>\<open>int\<close>: \<open>>>\<close> is \<^const>\<open>drop_bit\<close> (floor division by a power of two),
  \<open><<\<close> is \<^const>\<open>push_bit\<close>, \<open>^\<close> and \<open>&\<close> are \<open>XOR\<close> and \<open>AND\<close>.
  A Python \<open>str\<close> is modelled by \<^typ>\<open>string\<close>; \<open>ord\<close> is \<^const>\<open>of_char\<close>.
\<close>

definition CHARSET :: string where
  "CHARSET = ''qpzry9x8gf2tvdw0s3jn54khce6mua7l''"

definition generator :: "int list" where
  "generator =
    [0x48ad7da5f5dffe2565cb2f7406b4a2bcbc,
     0x55af243bb2f7943c3d4da6d046345795d,
     0xa91cc8534da778785f9247a01ceda669f,
     0x11a7b84839246b2e49b0c8d1039da6ddbb,
     0x234e589060c8d655d131058707391d2f53]"

text \<open>One iteration of the outer loop of \<open>bech32x_polymod\<close>.\<close>

definition polymod_step :: "int \<Rightarrow> int \<Rightarrow> int" where
  "polymod_step chk v =
    (let top = drop_bit 130 chk;
         chk1 = push_bit 5 (chk XOR push_bit 130 top) XOR v
     in fold (\<lambda>i c. c XOR (if drop_bit i top AND 1 \<noteq> 0 then generator ! i else 0))
          [0..<5] chk1)"

definition bech32x_polymod :: "int list \<Rightarrow> int" where
  "bech32x_polymod values = fold (\<lambda>v chk. polymod_step chk v) values 1"

definition ord :: "char \<Rightarrow> int" where
  "ord c = of_char c"

definition bech32x_hrp_expand :: "string \<Rightarrow> int list" where
  "bech32x_hrp_expand hrp =
    map (\<lambda>x. drop_bit 5 (ord x)) hrp @ [0] @ map (\<lambda>x. ord x AND 31) hrp"

definition bech32x_verify_checksum :: "string \<Rightarrow> int list \<Rightarrow> bool" where
  "bech32x_verify_checksum hrp data \<longleftrightarrow>
    bech32x_polymod (bech32x_hrp_expand hrp @ data) = 1"

definition bech32x_create_checksum :: "string \<Rightarrow> int list \<Rightarrow> int list" where
  "bech32x_create_checksum hrp data =
    (let values = bech32x_hrp_expand hrp @ data;
         polymod = bech32x_polymod (values @ replicate 27 0) XOR 1
     in map (\<lambda>i. drop_bit (5 * (26 - i)) polymod AND 31) [0..<27])"


section \<open>Strings\<close>

text \<open>
  Errors of the Python run time that the functions below can raise: \<open>TypeError\<close> when
  \<open>None\<close> is concatenated to a list, \<open>IndexError\<close> when \<open>CHARSET[d]\<close> is read out of range.
\<close>

datatype py_error = TypeError | IndexError

text \<open>
  \<open>CHARSET[d]\<close>: Python accepts the indices \<open>-32 \<dots> 31\<close> on a string of 32 characters
  (negative ones count from the end) and raises \<open>IndexError\<close> on all others.
\<close>

definition charset_at :: "int \<Rightarrow> py_error + char" where
  "charset_at d =
    (if 0 \<le> d \<and> d < 32 then Inr (CHARSET ! nat d)
     else if - 32 \<le> d \<and> d < 0 then Inr (CHARSET ! nat (d + 32))
     else Inl IndexError)"

text \<open>\<open>''.join([CHARSET[d] for d in ds])\<close>: the first failing lookup aborts the comprehension.\<close>

fun charset_join :: "int list \<Rightarrow> py_error + string" where
  "charset_join [] = Inr []"
| "charset_join (d # ds) =
    (case charset_at d of
       Inl e \<Rightarrow> Inl e
     | Inr c \<Rightarrow> (case charset_join ds of Inl e \<Rightarrow> Inl e | Inr cs \<Rightarrow> Inr (c # cs)))"

text \<open>
  \<open>str.lower\<close> and \<open>str.upper\<close>. Both decoders call them only behind the test that
  every character lies in \<open>[33, 126]\<close>, where they act on the ASCII letters alone.
\<close>

definition char_lower :: "char \<Rightarrow> char" where
  "char_lower c = (if 65 \<le> ord c \<and> ord c \<le> 90 then char_of (ord c + 32) else c)"

definition char_upper :: "char \<Rightarrow> char" where
  "char_upper c = (if 97 \<le> ord c \<and> ord c \<le> 122 then char_of (ord c - 32) else c)"

definition lower :: "string \<Rightarrow> string" where
  "lower s = map char_lower s"

definition upper :: "string \<Rightarrow> string" where
  "upper s = map char_upper s"

text \<open>\<open>s.rfind(c)\<close>: the highest index of \<open>c\<close> in \<open>s\<close>, or \<open>-1\<close>.\<close>

fun rfind :: "char \<Rightarrow> string \<Rightarrow> int" where
  "rfind c [] = - 1"
| "rfind c (x # xs) =
    (let r = rfind c xs in if 0 \<le> r then r + 1 else if x = c then 0 else - 1)"

text \<open>\<open>s.find(c)\<close>: the lowest index of \<open>c\<close> in \<open>s\<close>, or \<open>-1\<close>.\<close>

fun find_char :: "string \<Rightarrow> char \<Rightarrow> int" where
  "find_char [] c = - 1"
| "find_char (x # xs) c =
    (if x = c then 0 else let r = find_char xs c in if r < 0 then - 1 else r + 1)"

section \<open>Encoding and strict decoding\<close>

definition bech32x_encode :: "string \<Rightarrow> int list \<Rightarrow> py_error + string" where
  "bech32x_encode hrp data =
    (let combined = data @ bech32x_create_checksum hrp data
     in case charset_join combined of
          Inl e \<Rightarrow> Inl e
        | Inr cs \<Rightarrow> Inr (hrp @ ''1'' @ cs))"

text \<open>
  \<open>bech32x_decode\<close> returns the pair \<open>(None, None)\<close> on every failure; the model
  returns \<open>None\<close> for it and \<open>Some (hrp, data)\<close> otherwise.
\<close>

definition bech32x_decode :: "string \<Rightarrow> (string \<times> int list) option" where
  "bech32x_decode bech0 =
    (if list_ex (\<lambda>x. ord x < 33 \<or> 126 < ord x) bech0 \<or>
        (lower bech0 \<noteq> bech0 \<and> upper bech0 \<noteq> bech0)
     then None
     else
       let bech = lower bech0;
           pos = rfind (CHR ''1'') bech
       in if pos < 1 \<or> int (length bech) < pos + 27 \<or> 1023 < length bech then None
          else if \<not> list_all (\<lambda>x. x \<in> set CHARSET) (drop (nat (pos + 1)) bech) then None
          else
            let hrp = take (nat pos) bech;
                data = map (find_char CHARSET) (drop (nat (pos + 1)) bech)
            in if \<not> bech32x_verify_checksum hrp data then None
               else Some (hrp, take (length data - 27) data))"

section \<open>Bit regrouping and the byte-level wrappers\<close>

text \<open>
  The inner \<open>while bits >= tobits\<close> loop of \<open>convertbits\<close>. Both call sites pass a
  positive \<open>tobits\<close> (5 and 8); the guard \<open>0 < tobits\<close> makes the recursion total.
\<close>

function convert_while :: "int \<Rightarrow> nat \<Rightarrow> nat \<Rightarrow> int \<Rightarrow> int list \<Rightarrow> nat \<times> int list" where
  "convert_while acc bits tobits maxv ret =
    (if 0 < tobits \<and> tobits \<le> bits
     then convert_while acc (bits - tobits) tobits maxv
            (ret @ [drop_bit (bits - tobits) acc AND maxv])
     else (bits, ret))"
  by pat_completeness auto
termination
  by (relation "measure (\<lambda>(acc, bits, tobits, maxv, ret). bits)") auto

text \<open>The state of the \<open>for value in data\<close> loop is \<open>(acc, bits, ret)\<close>; \<open>None\<close> is the early
  \<open>return None\<close>.\<close>

definition convert_value ::
  "nat \<Rightarrow> nat \<Rightarrow> int \<Rightarrow> (int \<times> nat \<times> int list) option \<Rightarrow> (int \<times> nat \<times> int list) option" where
  "convert_value frombits tobits v st =
    (case st of
       None \<Rightarrow> None
     | Some (acc, bits, ret) \<Rightarrow>
         if v < 0 \<or> drop_bit frombits v \<noteq> 0 then None
         else
           let maxv = push_bit tobits 1 - 1;
               max_acc = push_bit (frombits + tobits - 1) 1 - 1;
               acc1 = (push_bit frombits acc OR v) AND max_acc;
               (bits1, ret1) = convert_while acc1 (bits + frombits) tobits maxv ret
           in Some (acc1, bits1, ret1))"

definition convertbits :: "int list \<Rightarrow> nat \<Rightarrow> nat \<Rightarrow> bool \<Rightarrow> int list option" where
  "convertbits data frombits tobits pad =
    (case fold (convert_value frombits tobits) data (Some (0, 0, [])) of
       None \<Rightarrow> None
     | Some (acc, bits, ret) \<Rightarrow>
         let maxv = push_bit tobits 1 - 1
         in if pad then
              (if bits \<noteq> 0 then Some (ret @ [push_bit (tobits - bits) acc AND maxv])
               else Some ret)
            else if frombits \<le> bits \<or> push_bit (tobits - bits) acc AND maxv \<noteq> 0 then None
            else Some ret)"

text \<open>
  \<open>decode\<close> returns the pair \<open>(None, None)\<close> when the prefix differs, and otherwise
  whatever \<open>convertbits\<close> returns: a list or \<open>None\<close>.
\<close>

datatype decode_result = None_Pair | Converted "int list option"

definition decode :: "string \<Rightarrow> string \<Rightarrow> decode_result" where
  "decode hrp addr =
    (case bech32x_decode addr of
       None \<Rightarrow> None_Pair
     | Some (hrpgot, data) \<Rightarrow>
         if hrpgot \<noteq> hrp then None_Pair else Converted (convertbits data 5 8 False))"

text \<open>
  \<open>encode\<close> hands the result of \<open>convertbits\<close> to \<open>bech32x_encode\<close> unchecked. When it
  is \<open>None\<close>, \<open>bech32x_create_checksum\<close> evaluates \<open>bech32x_hrp_expand(hrp) + None\<close>,
  which raises \<open>TypeError\<close>. \<open>Inr None\<close> is the \<open>return None\<close> of the self check.
\<close>

definition encode :: "string \<Rightarrow> int list \<Rightarrow> py_error + string option" where
  "encode hrp data =
    (case convertbits data 8 5 True of
       None \<Rightarrow> Inl TypeError
     | Some symbols \<Rightarrow>
         (case bech32x_encode hrp symbols of
            Inl e \<Rightarrow> Inl e
          | Inr ret \<Rightarrow> if decode hrp ret = None_Pair then Inr None else Inr (Some ret)))"

section \<open>Arithmetic in the field of 1024 elements\<close>

definition EXP :: "int list" where
  "EXP =
    [1, 69, 229, 290, 58, 183, 166, 89, 838, 737, 199, 802, 203, 59, 242, 67,
     379, 892, 598, 97, 891, 909, 730, 53, 865, 432, 839, 676, 34, 512, 241, 140,
     84, 26, 573, 413, 657, 835, 944, 950, 552, 118, 538, 716, 273, 709, 857, 397,
     555, 185, 821, 426, 378, 825, 691, 323, 833, 826, 636, 108, 39, 849, 896, 390,
     233, 571, 3, 207, 303, 870, 107, 508, 490, 206, 362, 899, 329, 454, 349, 104,
     307, 197, 936, 257, 639, 163, 264, 55, 1003, 122, 259, 757, 361, 844, 102, 672,
     310, 404, 217, 11, 706, 642, 822, 357, 85, 95, 728, 191, 683, 1012, 790, 1007,
     366, 663, 733, 494, 474, 766, 939, 462, 848, 965, 355, 459, 513, 180, 105, 374,
     32, 650, 315, 712, 5, 337, 881, 266, 189, 545, 574, 338, 958, 37, 987, 586,
     962, 184, 880, 335, 88, 771, 516, 485, 792, 124, 157, 171, 773, 922, 955, 372,
     170, 832, 895, 665, 334, 29, 998, 806, 479, 943, 218, 196, 1005, 484, 861, 153,
     447, 145, 946, 828, 994, 562, 587, 903, 93, 594, 373, 239, 933, 605, 675, 505,
     187, 959, 96, 830, 872, 1016, 15, 982, 278, 798, 482, 707, 711, 979, 71, 111,
     232, 638, 230, 493, 277, 977, 205, 421, 684, 559, 429, 161, 386, 509, 431, 43,
     72, 953, 510, 352, 260, 814, 978, 2, 138, 458, 580, 81, 331, 332, 151, 556,
     354, 398, 740, 406, 83, 449, 134, 723, 637, 41, 194, 627, 954, 305, 79, 610,
     837, 558, 488, 68, 160, 455, 280, 141, 17, 255, 799, 423, 550, 997, 1001, 240,
     201, 177, 312, 519, 298, 567, 794, 246, 343, 751, 852, 721, 759, 483, 646, 546,
     753, 125, 216, 78, 551, 928, 780, 466, 243, 6, 414, 606, 620, 214, 989, 980,
     412, 724, 934, 658, 908, 671, 208, 579, 394, 1008, 514, 123, 326, 528, 75, 886,
     209, 518, 367, 722, 568, 204, 480, 585, 781, 407, 22, 292, 420, 745, 714, 143,
     155, 309, 347, 502, 877, 681, 894, 732, 427, 319, 988, 913, 377, 1014, 924, 549,
     810, 710, 918, 162, 333, 210, 713, 64, 436, 595, 304, 10, 647, 615, 532, 351,
     226, 249, 641, 1017, 74, 819, 52, 804, 341, 613, 670, 149, 678, 168, 970, 693,
     221, 287, 342, 682, 945, 1011, 717, 340, 544, 635, 439, 668, 31, 876, 748, 923,
     1022, 401, 392, 890, 968, 575, 279, 859, 263, 993, 765, 868, 225, 54, 942, 159,
     33, 719, 478, 1002, 63, 486, 983, 339, 1019, 192, 761, 624, 885, 30, 809, 521,
     697, 964, 294, 302, 803, 142, 222, 464, 121, 460, 986, 527, 807, 410, 842, 504,
     254, 858, 322, 772, 991, 862, 86, 144, 1015, 985, 704, 520, 764, 801, 4, 276,
     916, 40, 135, 662, 664, 267, 248, 708, 796, 360, 777, 131, 898, 268, 291, 127,
     82, 388, 99, 1009, 583, 158, 100, 554, 252, 976, 136, 320, 910, 533, 282, 7,
     475, 699, 846, 236, 874, 882, 453, 402, 327, 597, 174, 596, 235, 689, 457, 651,
     382, 557, 295, 363, 966, 428, 228, 359, 223, 405, 156, 238, 992, 696, 897, 451,
     12, 793, 57, 120, 393, 831, 813, 797, 301, 1004, 417, 952, 443, 389, 38, 788,
     869, 164, 211, 652, 165, 150, 617, 391, 172, 734, 289, 245, 408, 960, 50, 698,
     779, 9, 584, 840, 370, 308, 286, 275, 591, 659, 969, 634, 498, 633, 317, 854,
     603, 829, 935, 727, 873, 957, 234, 756, 300, 937, 324, 666, 385, 306, 128, 845,
     35, 581, 20, 430, 110, 173, 667, 452, 471, 418, 887, 148, 739, 77, 744, 655,
     106, 441, 271, 492, 336, 820, 495, 415, 539, 649, 500, 999, 867, 314, 653, 224,
     115, 843, 445, 27, 632, 376, 947, 889, 775, 784, 625, 816, 251, 523, 563, 526,
     866, 383, 616, 450, 73, 1020, 283, 66, 318, 921, 884, 91, 972, 811, 643, 883,
     384, 375, 101, 623, 25, 754, 178, 503, 808, 588, 604, 742, 284, 409, 901, 215,
     920, 817, 190, 750, 785, 564, 981, 473, 561, 644, 680, 827, 569, 137, 261, 875,
     823, 288, 176, 381, 738, 8, 525, 941, 80, 270, 425, 437, 534, 469, 296, 701,
     720, 690, 262, 932, 536, 582, 219, 129, 776, 198, 871, 46, 281, 200, 244, 477,
     805, 272, 640, 956, 175, 529, 14, 915, 499, 572, 472, 628, 609, 906, 769, 654,
     47, 348, 45, 470, 487, 914, 438, 729, 250, 590, 726, 812, 856, 456, 718, 411,
     783, 285, 476, 864, 501, 930, 902, 24, 695, 87, 213, 786, 763, 762, 703, 602,
     888, 834, 1013, 851, 778, 76, 685, 618, 328, 387, 440, 330, 265, 114, 782, 344,
     313, 578, 463, 789, 800, 65, 497, 694, 18, 48, 560, 705, 589, 537, 515, 62,
     419, 818, 113, 961, 119, 607, 553, 51, 767, 1006, 299, 626, 1023, 468, 365, 600,
     1010, 648, 433, 770, 577, 256, 570, 70, 42, 13, 860, 220, 346, 435, 904, 907,
     836, 619, 269, 358, 154, 368, 446, 212, 855, 542, 984, 645, 749, 990, 795, 179,
     434, 973, 878, 614, 593, 442, 448, 195, 566, 863, 19, 117, 725, 995, 631, 686,
     677, 103, 741, 467, 182, 227, 188, 612, 731, 112, 900, 146, 893, 531, 132, 601,
     951, 621, 147, 824, 758, 422, 611, 768, 715, 202, 126, 23, 353, 321, 971, 752,
     56, 61, 364, 541, 791, 938, 395, 949, 743, 345, 380, 679, 237, 815, 919, 231,
     424, 496, 755, 247, 274, 522, 630, 747, 576, 325, 735, 356, 16, 186, 1018, 133,
     540, 850, 847, 169, 911, 592, 511, 293, 481, 524, 1000, 181, 44, 403, 258, 688,
     396, 622, 92, 535, 400, 461, 927, 746, 517, 416, 1021, 350, 167, 28, 931, 963,
     253, 917, 109, 98, 948, 674, 444, 94, 669, 90, 905, 974, 929, 841, 311, 465,
     60, 297, 760, 565, 912, 316, 787, 702, 543, 925, 608, 975, 996, 940, 21, 491,
     139, 399, 673, 371, 369, 507, 49, 629, 548, 879, 547, 692, 152, 506, 116, 656,
     774, 853, 660, 530, 193, 700, 661, 599, 36, 926, 687, 736, 130, 967, 489]"

definition LOG :: "int list" where
  "LOG =
    [-1, 0, 231, 66, 462, 132, 297, 495, 693, 561, 363, 99, 528, 825, 726, 198,
     924, 264, 792, 858, 594, 990, 330, 891, 759, 660, 33, 627, 957, 165, 429, 396,
     128, 416, 28, 592, 1016, 141, 542, 60, 465, 249, 824, 223, 940, 738, 715, 736,
     793, 998, 558, 807, 374, 23, 413, 87, 896, 530, 4, 13, 976, 897, 799, 420,
     359, 789, 647, 15, 259, 1, 823, 206, 224, 644, 372, 318, 773, 605, 291, 254,
     696, 235, 480, 244, 32, 104, 454, 761, 148, 7, 969, 651, 946, 184, 967, 105,
     194, 19, 963, 482, 486, 658, 94, 865, 79, 126, 608, 70, 59, 962, 596, 207,
     873, 802, 781, 624, 1006, 859, 41, 804, 531, 440, 89, 315, 153, 289, 890, 479,
     590, 711, 1020, 475, 878, 927, 246, 466, 490, 685, 232, 992, 31, 263, 437, 335,
     455, 177, 875, 882, 603, 379, 549, 238, 1004, 175, 836, 336, 522, 154, 485, 415,
     260, 219, 355, 85, 545, 548, 6, 956, 381, 931, 160, 155, 552, 597, 506, 724,
     690, 273, 662, 847, 125, 939, 868, 5, 145, 49, 925, 192, 870, 136, 674, 107,
     425, 1012, 250, 855, 171, 81, 713, 10, 717, 272, 889, 12, 325, 214, 73, 67,
     310, 320, 357, 546, 839, 762, 301, 671, 290, 98, 170, 710, 827, 384, 438, 520,
     623, 412, 368, 869, 518, 2, 210, 911, 208, 64, 582, 508, 499, 908, 523, 187,
     271, 30, 14, 296, 718, 555, 279, 915, 470, 369, 744, 636, 488, 960, 448, 265,
     821, 83, 942, 90, 228, 686, 706, 408, 86, 780, 135, 469, 477, 834, 697, 610,
     721, 44, 916, 567, 463, 212, 200, 406, 262, 716, 494, 646, 668, 753, 566, 385,
     689, 554, 3, 478, 331, 935, 434, 514, 702, 977, 276, 810, 584, 536, 435, 68,
     362, 253, 589, 80, 565, 337, 96, 974, 274, 784, 621, 130, 981, 574, 648, 345,
     491, 893, 450, 55, 586, 921, 316, 504, 776, 76, 779, 236, 237, 356, 164, 147,
     612, 133, 139, 423, 391, 376, 386, 280, 783, 905, 828, 338, 737, 78, 955, 367,
     227, 892, 240, 122, 923, 103, 835, 519, 473, 92, 74, 515, 898, 814, 112, 322,
     837, 996, 564, 995, 159, 186, 127, 657, 629, 348, 52, 16, 906, 691, 512, 641,
     656, 588, 220, 777, 481, 541, 63, 551, 402, 532, 312, 902, 944, 47, 241, 993,
     948, 401, 503, 941, 97, 521, 243, 329, 556, 669, 445, 751, 304, 35, 298, 615,
     953, 538, 601, 800, 332, 215, 885, 267, 912, 698, 51, 344, 517, 218, 595, 222,
     25, 818, 848, 829, 360, 699, 742, 394, 778, 609, 853, 540, 966, 626, 838, 176,
     854, 245, 643, 527, 599, 502, 77, 261, 749, 510, 233, 123, 441, 949, 119, 786,
     439, 975, 295, 867, 813, 701, 739, 600, 730, 679, 116, 496, 754, 719, 418, 168,
     326, 936, 202, 285, 173, 151, 421, 740, 258, 1022, 72, 991, 611, 211, 115, 614,
     913, 790, 572, 728, 618, 756, 339, 663, 447, 191, 1005, 997, 71, 221, 226, 934,
     29, 124, 314, 798, 150, 952, 321, 275, 459, 431, 917, 637, 937, 694, 639, 443,
     317, 725, 1011, 877, 366, 493, 700, 947, 708, 797, 42, 616, 928, 899, 841, 984,
     392, 137, 287, 1002, 1000, 351, 268, 292, 40, 806, 487, 48, 239, 513, 257, 217,
     794, 680, 181, 638, 677, 979, 856, 277, 324, 684, 822, 65, 729, 34, 138, 405,
     920, 820, 785, 311, 234, 593, 709, 484, 562, 327, 143, 182, 665, 796, 745, 568,
     933, 852, 185, 361, 507, 505, 18, 1015, 815, 879, 767, 576, 666, 189, 299, 805,
     986, 732, 255, 886, 871, 377, 851, 365, 642, 550, 775, 833, 300, 881, 945, 659,
     427, 634, 811, 251, 731, 999, 918, 862, 628, 573, 571, 393, 58, 248, 209, 84,
     722, 370, 101, 654, 681, 843, 286, 364, 817, 617, 129, 511, 547, 622, 735, 607,
     1007, 36, 307, 569, 1010, 1014, 467, 113, 468, 163, 587, 598, 395, 968, 378, 309,
     95, 994, 965, 190, 27, 864, 380, 907, 682, 341, 387, 108, 216, 774, 863, 1018,
     943, 509, 705, 54, 1003, 383, 791, 760, 525, 432, 559, 497, 1013, 703, 983, 766,
     458, 795, 100, 203, 471, 45, 353, 204, 131, 358, 334, 888, 43, 390, 750, 417,
     704, 283, 323, 247, 305, 860, 746, 579, 106, 743, 22, 872, 343, 114, 553, 922,
     1019, 9, 692, 604, 242, 866, 667, 904, 606, 333, 951, 919, 398, 844, 675, 281,
     895, 288, 661, 914, 583, 91, 884, 284, 978, 426, 765, 764, 460, 410, 117, 808,
     887, 734, 819, 149, 451, 156, 1008, 632, 712, 474, 772, 560, 294, 328, 782, 752,
     633, 676, 763, 982, 543, 787, 110, 900, 152, 529, 278, 846, 472, 535, 201, 266,
     788, 461, 11, 436, 375, 720, 167, 444, 664, 430, 352, 653, 747, 534, 229, 909,
     635, 673, 801, 373, 613, 50, 102, 688, 883, 53, 57, 683, 179, 577, 195, 533,
     161, 56, 769, 37, 832, 256, 8, 26, 563, 973, 446, 625, 93, 591, 498, 930,
     120, 61, 929, 771, 282, 1009, 575, 840, 748, 46, 449, 407, 826, 174, 453, 857,
     755, 24, 640, 620, 411, 544, 69, 714, 196, 580, 500, 687, 397, 340, 850, 1001,
     146, 134, 501, 655, 650, 428, 319, 602, 768, 631, 403, 20, 17, 876, 342, 162,
     62, 526, 476, 75, 874, 670, 758, 183, 830, 970, 733, 831, 308, 21, 492, 932,
     980, 347, 741, 727, 464, 961, 354, 910, 672, 649, 157, 399, 350, 985, 1017, 950,
     293, 972, 757, 958, 707, 188, 306, 578, 82, 585, 901, 118, 989, 695, 414, 169,
     38, 388, 178, 630, 964, 903, 39, 880, 539, 225, 252, 158, 723, 581, 140, 193,
     557, 803, 144, 959, 433, 121, 516, 1021, 404, 570, 382, 894, 652, 849, 971, 987,
     489, 213, 230, 205, 303, 678, 199, 422, 842, 457, 442, 142, 346, 302, 845, 452,
     524, 409, 180, 861, 988, 269, 166, 619, 938, 270, 419, 88, 537, 172, 809, 111,
     313, 483, 816, 389, 109, 770, 349, 456, 197, 371, 926, 424, 645, 954, 400, 812]"

text \<open>
  The table reads \<open>EXP[k]\<close> and \<open>LOG[a]\<close>. The program reads \<open>LOG\<close> at field elements,
  which lie in \<open>[0, 1023]\<close>, and \<open>EXP\<close> at residues modulo 1023; no read is out of range
  (\<open>shift_range\<close> below shows that every product is a field element again).
\<close>

definition EXP_at :: "int \<Rightarrow> int" where
  "EXP_at k = EXP ! nat k"

definition LOG_at :: "int \<Rightarrow> int" where
  "LOG_at a = LOG ! nat a"

text \<open>\<open>mod\<close> on \<^typ>\<open>int\<close> takes the sign of the divisor, as Python's \<open>%\<close> does.\<close>

definition shift :: "int \<Rightarrow> int \<Rightarrow> int" where
  "shift a e = (if a = 0 then 0 else EXP_at ((LOG_at a + e) mod 1023))"

definition polymul :: "int list \<Rightarrow> int list \<Rightarrow> int list" where
  "polymul a b =
    fold (\<lambda>x ret.
        if a ! x \<noteq> 0 then
          (let l = LOG_at (a ! x)
           in fold (\<lambda>y ret. ret[x + y := ret ! (x + y) XOR shift (b ! y) l]) [0..<length b] ret)
        else ret)
      [0..<length a] (replicate (length a + length b - 1) 0)"

definition polyeval :: "int list \<Rightarrow> int \<Rightarrow> int" where
  "polyeval p l = fold (\<lambda>v ret. shift ret l XOR v) (rev p) 0"

section \<open>Syndrome decoder\<close>

definition solver_matrix :: "int list \<Rightarrow> nat \<Rightarrow> int list list" where
  "solver_matrix s err = map (\<lambda>j. map (\<lambda>i. s ! (i + j)) [0..<err + 1]) [0..<err]"

text \<open>The first row at or below \<open>rc\<close> with a nonzero entry in column \<open>rc\<close>.\<close>

definition solver_pivot :: "int list list \<Rightarrow> nat \<Rightarrow> nat \<Rightarrow> nat option" where
  "solver_pivot m rc err =
    (case filter (\<lambda>r. m ! r ! rc \<noteq> 0) [rc..<err] of [] \<Rightarrow> None | nz # _ \<Rightarrow> Some nz)"

text \<open>One iteration of \<open>for rc in range(err)\<close>: pivot search, swap, normalisation, elimination.\<close>

definition solver_column :: "nat \<Rightarrow> nat \<Rightarrow> int list list \<Rightarrow> int list list option" where
  "solver_column err rc m =
    (case solver_pivot m rc err of
       None \<Rightarrow> None
     | Some nz \<Rightarrow>
         let m1 = m[nz := m ! rc, rc := m ! nz];
             l = LOG_at (m1 ! rc ! rc);
             m2 = m1[rc := map (\<lambda>x. shift x (- l)) (m1 ! rc)]
         in Some (fold (\<lambda>r m.
                     if r \<noteq> rc \<and> m ! r ! rc \<noteq> 0 then
                       m[r := map (\<lambda>c. m ! r ! c XOR shift (m ! rc ! c) (LOG_at (m ! r ! rc)))
                                [0..<err + 1]]
                     else m)
                   [0..<err] m2))"

definition solver_gauss :: "int list \<Rightarrow> nat \<Rightarrow> int list list option" where
  "solver_gauss s err =
    fold (\<lambda>rc mo. case mo of None \<Rightarrow> None | Some m \<Rightarrow> solver_column err rc m)
      [0..<err] (Some (solver_matrix s err))"

definition locator :: "int list list \<Rightarrow> nat \<Rightarrow> int list" where
  "locator m err = 1 # map (\<lambda>i. m ! (err - (i + 1)) ! err) [0..<err]"

definition locator_derivative :: "int list list \<Rightarrow> nat \<Rightarrow> int list" where
  "locator_derivative m err =
    map (\<lambda>i. if int i AND 1 \<noteq> 0 then 0 else m ! (err - (1 + i)) ! err) [0..<err]"

definition evaluator :: "int list \<Rightarrow> int list \<Rightarrow> int list" where
  "evaluator s lam = take 13 (polymul s lam)"

text \<open>The root search \<open>for p in range(siz)\<close> with the Forney magnitude of every root.\<close>

definition forney :: "int list \<Rightarrow> int list \<Rightarrow> int list \<Rightarrow> nat \<Rightarrow> (nat \<times> int) list" where
  "forney lam lamd om siz =
    fold (\<lambda>p ret.
        if polyeval lam (- int p) = 0 then
          ret @ [(p, shift (polyeval om (- int p))
                       (- (19 * int p + LOG_at (polyeval lamd (- int p)))))]
        else ret)
      [0..<siz] []"

definition bech32x_solver :: "int list \<Rightarrow> nat \<Rightarrow> nat \<Rightarrow> (nat \<times> int) list option" where
  "bech32x_solver s siz err =
    (case solver_gauss s err of
       None \<Rightarrow> None
     | Some m \<Rightarrow>
         let lam = locator m err;
             lamd = locator_derivative m err;
             om = evaluator s lam
         in Some (forney lam lamd om siz))"

section \<open>Correcting decoder\<close>

definition residue_digits :: "int list \<Rightarrow> int list" where
  "residue_digits values =
    map (\<lambda>i. drop_bit (5 * (26 - i)) (bech32x_polymod values XOR 1) AND 31) [0..<27]"

definition syndrome :: "int list \<Rightarrow> int list" where
  "syndrome values =
    fold (\<lambda>v syn. map (\<lambda>i. shift (syn ! i) (20 + int i) XOR v) [0..<14])
      (residue_digits values) (replicate 14 0)"

text \<open>
  Outcomes of \<open>base32x_correct\<close>: the tuple of four \<open>None\<close>s, the tuple of prefix, data
  symbols, re-encoded characters and corrected positions, and the bare \<open>None\<close> that a
  Python function returns when its body ends without a \<open>return\<close>.
\<close>

datatype correct_result =
  Rejected
| Corrected string "int list" string "int list"
| Fell_Through

text \<open>\<open>for (p, e) in ret: values[-(1+p)] ^= e\<close>\<close>

definition apply_errors :: "(nat \<times> int) list \<Rightarrow> int list \<Rightarrow> int list" where
  "apply_errors ret values =
    fold (\<lambda>(p, e) vs. vs[length vs - (1 + p) := vs ! (length vs - (1 + p)) XOR e]) ret values"

text \<open>
  The loop \<open>for i in range(7, -1, -1)\<close>, entered at \<open>i\<close>. \<open>n\<close> is \<open>len(hrp_ext)\<close> and
  \<open>siz\<close> the number of characters after the separator.
\<close>

fun correct_search ::
  "string \<Rightarrow> nat \<Rightarrow> int list \<Rightarrow> int list \<Rightarrow> nat \<Rightarrow> nat \<Rightarrow> py_error + correct_result" where
  "correct_search hrpgot n values syn siz i =
    (case bech32x_solver syn siz i of
       None \<Rightarrow>
         (case i of 0 \<Rightarrow> Inr Fell_Through
          | Suc j \<Rightarrow> correct_search hrpgot n values syn siz j)
     | Some ret \<Rightarrow>
         if length ret = i then
           (let values1 = apply_errors ret values
            in case charset_join (drop n values1) of
                 Inl e \<Rightarrow> Inl e
               | Inr str \<Rightarrow>
                   Inr (Corrected hrpgot (drop n (take (length values1 - 27) values1)) str
                         (map (\<lambda>(p, e). int siz - 1 - int p) ret)))
         else Inr Rejected)"

definition base32x_correct :: "string \<Rightarrow> string \<Rightarrow> py_error + correct_result" where
  "base32x_correct expected_hrp bech0 =
    (if list_ex (\<lambda>x. ord x < 33 \<or> 126 < ord x) bech0 \<or>
        (lower bech0 \<noteq> bech0 \<and> upper bech0 \<noteq> bech0)
     then Inr Rejected
     else
       let bech = lower bech0;
           pos = rfind (CHR ''1'') bech
       in if pos < 1 \<or> int (length bech) < pos + 27 \<or> 1023 < length bech then Inr Rejected
          else if \<not> list_all (\<lambda>x. x \<in> set CHARSET) (drop (nat (pos + 1)) bech)
          then Inr Rejected
          else
            let hrpgot = take (nat pos) bech
            in if expected_hrp \<noteq> ''*'' \<and> hrpgot \<noteq> expected_hrp then Inr Rejected
               else
                 let hrp_ext = bech32x_hrp_expand hrpgot;
                     values = hrp_ext @ map (find_char CHARSET) (drop (nat (pos + 1)) bech)
                 in correct_search hrpgot (length hrp_ext) values (syndrome values)
                      (length (drop (nat (pos + 1)) bech)) 7)"
section \<open>Auxiliary notions for the proofs\<close>

text \<open>The generator constants selected by the five bits shifted out of the register.\<close>

definition gen_mask :: "int \<Rightarrow> int" where
  "gen_mask t = fold (\<lambda>i c. c XOR (if drop_bit i t AND 1 \<noteq> 0 then generator ! i else 0)) [0..<5] 0"

text \<open>The values a 135-bit register can hold.\<close>

definition reg :: "int \<Rightarrow> bool" where
  "reg x \<longleftrightarrow> 0 \<le> x \<and> x < 2 ^ 135"

text \<open>The outer loop of \<open>bech32x_polymod\<close> started from an arbitrary register value.\<close>

definition run :: "int \<Rightarrow> int list \<Rightarrow> int" where
  "run c vs = fold (\<lambda>v chk. polymod_step chk v) vs c"

text \<open>One loop iteration with the symbol 0.\<close>

definition zstep :: "int \<Rightarrow> int" where
  "zstep x = polymod_step x 0"

text \<open>The \<open>n\<close> five-bit digits of \<open>X\<close>, most significant first.\<close>

definition digits :: "nat \<Rightarrow> int \<Rightarrow> int list" where
  "digits n X = map (\<lambda>i. drop_bit (5 * (n - 1 - i)) X AND 31) [0..<n]"

text \<open>
  The checks that \<open>bech32x_decode\<close> and \<open>base32x_correct\<close> both make before any checksum
  is computed, with the prefix and the characters after the separator as result.
\<close>

definition "structure" :: "string \<Rightarrow> (string \<times> string) option" where
  "structure bech0 =
    (if list_ex (\<lambda>x. ord x < 33 \<or> 126 < ord x) bech0 \<or>
        (lower bech0 \<noteq> bech0 \<and> upper bech0 \<noteq> bech0)
     then None
     else
       let bech = lower bech0;
           pos = rfind (CHR ''1'') bech
       in if pos < 1 \<or> int (length bech) < pos + 27 \<or> 1023 < length bech then None
          else if \<not> list_all (\<lambda>x. x \<in> set CHARSET) (drop (nat (pos + 1)) bech) then None
          else Some (take (nat pos) bech, drop (nat (pos + 1)) bech))"

text \<open>The table \<open>EXP\<close> in rows of 32 entries, for reading an entry in few steps.\<close>

definition EXP_rows :: "int list list" where
  "EXP_rows =
    [[1, 69, 229, 290, 58, 183, 166, 89, 838, 737, 199, 802, 203, 59, 242, 67,
      379, 892, 598, 97, 891, 909, 730, 53, 865, 432, 839, 676, 34, 512, 241, 140],
     [84, 26, 573, 413, 657, 835, 944, 950, 552, 118, 538, 716, 273, 709, 857, 397,
      555, 185, 821, 426, 378, 825, 691, 323, 833, 826, 636, 108, 39, 849, 896, 390],
     [233, 571, 3, 207, 303, 870, 107, 508, 490, 206, 362, 899, 329, 454, 349, 104,
      307, 197, 936, 257, 639, 163, 264, 55, 1003, 122, 259, 757, 361, 844, 102, 672],
     [310, 404, 217, 11, 706, 642, 822, 357, 85, 95, 728, 191, 683, 1012, 790, 1007,
      366, 663, 733, 494, 474, 766, 939, 462, 848, 965, 355, 459, 513, 180, 105, 374],
     [32, 650, 315, 712, 5, 337, 881, 266, 189, 545, 574, 338, 958, 37, 987, 586,
      962, 184, 880, 335, 88, 771, 516, 485, 792, 124, 157, 171, 773, 922, 955, 372],
     [170, 832, 895, 665, 334, 29, 998, 806, 479, 943, 218, 196, 1005, 484, 861, 153,
      447, 145, 946, 828, 994, 562, 587, 903, 93, 594, 373, 239, 933, 605, 675, 505],
     [187, 959, 96, 830, 872, 1016, 15, 982, 278, 798, 482, 707, 711, 979, 71, 111,
      232, 638, 230, 493, 277, 977, 205, 421, 684, 559, 429, 161, 386, 509, 431, 43],
     [72, 953, 510, 352, 260, 814, 978, 2, 138, 458, 580, 81, 331, 332, 151, 556,
      354, 398, 740, 406, 83, 449, 134, 723, 637, 41, 194, 627, 954, 305, 79, 610],
     [837, 558, 488, 68, 160, 455, 280, 141, 17, 255, 799, 423, 550, 997, 1001, 240,
      201, 177, 312, 519, 298, 567, 794, 246, 343, 751, 852, 721, 759, 483, 646, 546],
     [753, 125, 216, 78, 551, 928, 780, 466, 243, 6, 414, 606, 620, 214, 989, 980,
      412, 724, 934, 658, 908, 671, 208, 579, 394, 1008, 514, 123, 326, 528, 75, 886],
     [209, 518, 367, 722, 568, 204, 480, 585, 781, 407, 22, 292, 420, 745, 714, 143,
      155, 309, 347, 502, 877, 681, 894, 732, 427, 319, 988, 913, 377, 1014, 924, 549],
     [810, 710, 918, 162, 333, 210, 713, 64, 436, 595, 304, 10, 647, 615, 532, 351,
      226, 249, 641, 1017, 74, 819, 52, 804, 341, 613, 670, 149, 678, 168, 970, 693],
     [221, 287, 342, 682, 945, 1011, 717, 340, 544, 635, 439, 668, 31, 876, 748, 923,
      1022, 401, 392, 890, 968, 575, 279, 859, 263, 993, 765, 868, 225, 54, 942, 159],
     [33, 719, 478, 1002, 63, 486, 983, 339, 1019, 192, 761, 624, 885, 30, 809, 521,
      697, 964, 294, 302, 803, 142, 222, 464, 121, 460, 986, 527, 807, 410, 842, 504],
     [254, 858, 322, 772, 991, 862, 86, 144, 1015, 985, 704, 520, 764, 801, 4, 276,
      916, 40, 135, 662, 664, 267, 248, 708, 796, 360, 777, 131, 898, 268, 291, 127],
     [82, 388, 99, 1009, 583, 158, 100, 554, 252, 976, 136, 320, 910, 533, 282, 7,
      475, 699, 846, 236, 874, 882, 453, 402, 327, 597, 174, 596, 235, 689, 457, 651],
     [382, 557, 295, 363, 966, 428, 228, 359, 223, 405, 156, 238, 992, 696, 897, 451,
      12, 793, 57, 120, 393, 831, 813, 797, 301, 1004, 417, 952, 443, 389, 38, 788],
     [869, 164, 211, 652, 165, 150, 617, 391, 172, 734, 289, 245, 408, 960, 50, 698,
      779, 9, 584, 840, 370, 308, 286, 275, 591, 659, 969, 634, 498, 633, 317, 854],
     [603, 829, 935, 727, 873, 957, 234, 756, 300, 937, 324, 666, 385, 306, 128, 845,
      35, 581, 20, 430, 110, 173, 667, 452, 471, 418, 887, 148, 739, 77, 744, 655],
     [106, 441, 271, 492, 336, 820, 495, 415, 539, 649, 500, 999, 867, 314, 653, 224,
      115, 843, 445, 27, 632, 376, 947, 889, 775, 784, 625, 816, 251, 523, 563, 526],
     [866, 383, 616, 450, 73, 1020, 283, 66, 318, 921, 884, 91, 972, 811, 643, 883,
      384, 375, 101, 623, 25, 754, 178, 503, 808, 588, 604, 742, 284, 409, 901, 215],
     [920, 817, 190, 750, 785, 564, 981, 473, 561, 644, 680, 827, 569, 137, 261, 875,
      823, 288, 176, 381, 738, 8, 525, 941, 80, 270, 425, 437, 534, 469, 296, 701],
     [720, 690, 262, 932, 536, 582, 219, 129, 776, 198, 871, 46, 281, 200, 244, 477,
      805, 272, 640, 956, 175, 529, 14, 915, 499, 572, 472, 628, 609, 906, 769, 654],
     [47, 348, 45, 470, 487, 914, 438, 729, 250, 590, 726, 812, 856, 456, 718, 411,
      783, 285, 476, 864, 501, 930, 902, 24, 695, 87, 213, 786, 763, 762, 703, 602],
     [888, 834, 1013, 851, 778, 76, 685, 618, 328, 387, 440, 330, 265, 114, 782, 344,
      313, 578, 463, 789, 800, 65, 497, 694, 18, 48, 560, 705, 589, 537, 515, 62],
     [419, 818, 113, 961, 119, 607, 553, 51, 767, 1006, 299, 626, 1023, 468, 365, 600,
      1010, 648, 433, 770, 577, 256, 570, 70, 42, 13, 860, 220, 346, 435, 904, 907],
     [836, 619, 269, 358, 154, 368, 446, 212, 855, 542, 984, 645, 749, 990, 795, 179,
      434, 973, 878, 614, 593, 442, 448, 195, 566, 863, 19, 117, 725, 995, 631, 686],
     [677, 103, 741, 467, 182, 227, 188, 612, 731, 112, 900, 146, 893, 531, 132, 601,
      951, 621, 147, 824, 758, 422, 611, 768, 715, 202, 126, 23, 353, 321, 971, 752],
     [56, 61, 364, 541, 791, 938, 395, 949, 743, 345, 380, 679, 237, 815, 919, 231,
      424, 496, 755, 247, 274, 522, 630, 747, 576, 325, 735, 356, 16, 186, 1018, 133],
     [540, 850, 847, 169, 911, 592, 511, 293, 481, 524, 1000, 181, 44, 403, 258, 688,
      396, 622, 92, 535, 400, 461, 927, 746, 517, 416, 1021, 350, 167, 28, 931, 963],
     [253, 917, 109, 98, 948, 674, 444, 94, 669, 90, 905, 974, 929, 841, 311, 465,
      60, 297, 760, 565, 912, 316, 787, 702, 543, 925, 608, 975, 996, 940, 21, 491],
     [139, 399, 673, 371, 369, 507, 49, 629, 548, 879, 547, 692, 152, 506, 116, 656,
      774, 853, 660, 530, 193, 700, 661, 599, 36, 926, 687, 736, 130, 967, 489]]"

text \<open>The table \<open>LOG\<close> in rows of 32 entries, for reading an entry in few steps.\<close>

definition LOG_rows :: "int list list" where
  "LOG_rows =
    [[-1, 0, 231, 66, 462, 132, 297, 495, 693, 561, 363, 99, 528, 825, 726, 198,
      924, 264, 792, 858, 594, 990, 330, 891, 759, 660, 33, 627, 957, 165, 429, 396],
     [128, 416, 28, 592, 1016, 141, 542, 60, 465, 249, 824, 223, 940, 738, 715, 736,
      793, 998, 558, 807, 374, 23, 413, 87, 896, 530, 4, 13, 976, 897, 799, 420],
     [359, 789, 647, 15, 259, 1, 823, 206, 224, 644, 372, 318, 773, 605, 291, 254,
      696, 235, 480, 244, 32, 104, 454, 761, 148, 7, 969, 651, 946, 184, 967, 105],
     [194, 19, 963, 482, 486, 658, 94, 865, 79, 126, 608, 70, 59, 962, 596, 207,
      873, 802, 781, 624, 1006, 859, 41, 804, 531, 440, 89, 315, 153, 289, 890, 479],
     [590, 711, 1020, 475, 878, 927, 246, 466, 490, 685, 232, 992, 31, 263, 437, 335,
      455, 177, 875, 882, 603, 379, 549, 238, 1004, 175, 836, 336, 522, 154, 485, 415],
     [260, 219, 355, 85, 545, 548, 6, 956, 381, 931, 160, 155, 552, 597, 506, 724,
      690, 273, 662, 847, 125, 939, 868, 5, 145, 49, 925, 192, 870, 136, 674, 107],
     [425, 1012, 250, 855, 171, 81, 713, 10, 717, 272, 889, 12, 325, 214, 73, 67,
      310, 320, 357, 546, 839, 762, 301, 671, 290, 98, 170, 710, 827, 384, 438, 520],
     [623, 412, 368, 869, 518, 2, 210, 911, 208, 64, 582, 508, 499, 908, 523, 187,
      271, 30, 14, 296, 718, 555, 279, 915, 470, 369, 744, 636, 488, 960, 448, 265],
     [821, 83, 942, 90, 228, 686, 706, 408, 86, 780, 135, 469, 477, 834, 697, 610,
      721, 44, 916, 567, 463, 212, 200, 406, 262, 716, 494, 646, 668, 753, 566, 385],
     [689, 554, 3, 478, 331, 935, 434, 514, 702, 977, 276, 810, 584, 536, 435, 68,
      362, 253, 589, 80, 565, 337, 96, 974, 274, 784, 621, 130, 981, 574, 648, 345],
     [491, 893, 450, 55, 586, 921, 316, 504, 776, 76, 779, 236, 237, 356, 164, 147,
      612, 133, 139, 423, 391, 376, 386, 280, 783, 905, 828, 338, 737, 78, 955, 367],
     [227, 892, 240, 122, 923, 103, 835, 519, 473, 92, 74, 515, 898, 814, 112, 322,
      837, 996, 564, 995, 159, 186, 127, 657, 629, 348, 52, 16, 906, 691, 512, 641],
     [656, 588, 220, 777, 481, 541, 63, 551, 402, 532, 312, 902, 944, 47, 241, 993,
      948, 401, 503, 941, 97, 521, 243, 329, 556, 669, 445, 751, 304, 35, 298, 615],
     [953, 538, 601, 800, 332, 215, 885, 267, 912, 698, 51, 344, 517, 218, 595, 222,
      25, 818, 848, 829, 360, 699, 742, 394, 778, 609, 853, 540, 966, 626, 838, 176],
     [854, 245, 643, 527, 599, 502, 77, 261, 749, 510, 233, 123, 441, 949, 119, 786,
      439, 975, 295, 867, 813, 701, 739, 600, 730, 679, 116, 496, 754, 719, 418, 168],
     [326, 936, 202, 285, 173, 151, 421, 740, 258, 1022, 72, 991, 611, 211, 115, 614,
      913, 790, 572, 728, 618, 756, 339, 663, 447, 191, 1005, 997, 71, 221, 226, 934],
     [29, 124, 314, 798, 150, 952, 321, 275, 459, 431, 917, 637, 937, 694, 639, 443,
      317, 725, 1011, 877, 366, 493, 700, 947, 708, 797, 42, 616, 928, 899, 841, 984],
     [392, 137, 287, 1002, 1000, 351, 268, 292, 40, 806, 487, 48, 239, 513, 257, 217,
      794, 680, 181, 638, 677, 979, 856, 277, 324, 684, 822, 65, 729, 34, 138, 405],
     [920, 820, 785, 311, 234, 593, 709, 484, 562, 327, 143, 182, 665, 796, 745, 568,
      933, 852, 185, 361, 507, 505, 18, 1015, 815, 879, 767, 576, 666, 189, 299, 805],
     [986, 732, 255, 886, 871, 377, 851, 365, 642, 550, 775, 833, 300, 881, 945, 659,
      427, 634, 811, 251, 731, 999, 918, 862, 628, 573, 571, 393, 58, 248, 209, 84],
     [722, 370, 101, 654, 681, 843, 286, 364, 817, 617, 129, 511, 547, 622, 735, 607,
      1007, 36, 307, 569, 1010, 1014, 467, 113, 468, 163, 587, 598, 395, 968, 378, 309],
     [95, 994, 965, 190, 27, 864, 380, 907, 682, 341, 387, 108, 216, 774, 863, 1018,
      943, 509, 705, 54, 1003, 383, 791, 760, 525, 432, 559, 497, 1013, 703, 983, 766],
     [458, 795, 100, 203, 471, 45, 353, 204, 131, 358, 334, 888, 43, 390, 750, 417,
      704, 283, 323, 247, 305, 860, 746, 579, 106, 743, 22, 872, 343, 114, 553, 922],
     [1019, 9, 692, 604, 242, 866, 667, 904, 606, 333, 951, 919, 398, 844, 675, 281,
      895, 288, 661, 914, 583, 91, 884, 284, 978, 426, 765, 764, 460, 410, 117, 808],
     [887, 734, 819, 149, 451, 156, 1008, 632, 712, 474, 772, 560, 294, 328, 782, 752,
      633, 676, 763, 982, 543, 787, 110, 900, 152, 529, 278, 846, 472, 535, 201, 266],
     [788, 461, 11, 436, 375, 720, 167, 444, 664, 430, 352, 653, 747, 534, 229, 909,
      635, 673, 801, 373, 613, 50, 102, 688, 883, 53, 57, 683, 179, 577, 195, 533],
     [161, 56, 769, 37, 832, 256, 8, 26, 563, 973, 446, 625, 93, 591, 498, 930,
      120, 61, 929, 771, 282, 1009, 575, 840, 748, 46, 449, 407, 826, 174, 453, 857],
     [755, 24, 640, 620, 411, 544, 69, 714, 196, 580, 500, 687, 397, 340, 850, 1001,
      146, 134, 501, 655, 650, 428, 319, 602, 768, 631, 403, 20, 17, 876, 342, 162],
     [62, 526, 476, 75, 874, 670, 758, 183, 830, 970, 733, 831, 308, 21, 492, 932,
      980, 347, 741, 727, 464, 961, 354, 910, 672, 649, 157, 399, 350, 985, 1017, 950],
     [293, 972, 757, 958, 707, 188, 306, 578, 82, 585, 901, 118, 989, 695, 414, 169,
      38, 388, 178, 630, 964, 903, 39, 880, 539, 225, 252, 158, 723, 581, 140, 193],
     [557, 803, 144, 959, 433, 121, 516, 1021, 404, 570, 382, 894, 652, 849, 971, 987,
      489, 213, 230, 205, 303, 678, 199, 422, 842, 457, 442, 142, 346, 302, 845, 452],
     [524, 409, 180, 861, 988, 269, 166, 619, 938, 270, 419, 88, 537, 172, 809, 111,
      313, 483, 816, 389, 109, 770, 349, 456, 197, 371, 926, 424, 645, 954, 400, 812]]"
section \<open>The checksum register\<close>

lemma fold_xor_acc: "fold (\<lambda>i c. c XOR h i) xs (a::int) = a XOR fold (\<lambda>i c. c XOR h i) xs 0"
proof (induction xs arbitrary: a)
  case Nil then show ?case by simp
next
  case (Cons x xs)
  have "fold (\<lambda>i c. c XOR h i) (x # xs) a = (a XOR h x) XOR fold (\<lambda>i c. c XOR h i) xs 0"
    using Cons.IH [of "a XOR h x"] by simp
  also have "\<dots> = a XOR (h x XOR fold (\<lambda>i c. c XOR h i) xs 0)"
    by (simp add: xor.assoc)
  also have "h x XOR fold (\<lambda>i c. c XOR h i) xs 0 = fold (\<lambda>i c. c XOR h i) (x # xs) 0"
    using Cons.IH [of "h x"] by simp
  finally show ?case .
qed

lemma clear_top: "(chk::int) XOR push_bit n (drop_bit n chk) = take_bit n chk"
  by (rule bit_eqI) (auto simp add: bit_simps)

lemma polymod_step_closed:
  "polymod_step chk v = push_bit 5 (take_bit 130 chk) XOR v XOR gen_mask (drop_bit 130 chk)"
  unfolding polymod_step_def Let_def gen_mask_def clear_top
  by (subst fold_xor_acc) (simp add: xor.assoc)

lemma fold_xor_if_neq:
  "fold (\<lambda>i c. c XOR (if P i \<noteq> Q i then g i else 0)) xs (0::int) =
   fold (\<lambda>i c. c XOR (if P i then g i else 0)) xs 0 XOR fold (\<lambda>i c. c XOR (if Q i then g i else 0)) xs 0"
proof (induction xs)
  case Nil then show ?case by simp
next
  case (Cons x xs)
  show ?case
    apply (simp only: fold_simps)
    apply (subst fold_xor_acc)
    apply (subst (2) fold_xor_acc)
    apply (subst (3) fold_xor_acc)
    apply (simp only: Cons.IH)
    apply (simp add: xor.assoc xor.left_commute)
    done
qed

lemma bit_test: "(drop_bit i (k::int) AND 1 \<noteq> 0) = bit k i"
  by (simp add: and_one_eq bit_iff_odd_drop_bit odd_iff_mod_2_eq_one)

lemma gen_mask_xor: "gen_mask (t XOR u) = gen_mask t XOR gen_mask u"
  unfolding gen_mask_def bit_test bit_xor_iff
  by (rule fold_xor_if_neq)

lemma polymod_step_xor:
  "polymod_step (c XOR x) v = polymod_step c v XOR polymod_step x 0"
  by (simp add: polymod_step_closed gen_mask_xor xor.assoc xor.left_commute)

lemma generator_bounds: "list_all (\<lambda>g. 0 \<le> g \<and> g < 2 ^ 135) generator"
  by code_simp

lemma reg_xor: "reg a \<Longrightarrow> reg b \<Longrightarrow> reg (a XOR b)"
  unfolding reg_def using XOR_upper [of a 135 b] by auto

lemma reg_take_bit: "reg x \<Longrightarrow> take_bit 135 x = x"
  unfolding reg_def by (intro take_bit_int_eq_self) blast+

lemma fold_xor_reg:
  "list_all (\<lambda>i. reg (h i)) xs \<Longrightarrow> reg a \<Longrightarrow> reg (fold (\<lambda>i c. c XOR h i) xs a)"
  by (induction xs arbitrary: a) (simp_all add: reg_xor)

lemma upt5: "[0..<5] = [0, 1, 2, 3, 4]"
  by code_simp

lemma reg_gen_mask: "reg (gen_mask t)"
  unfolding gen_mask_def
  by (rule fold_xor_reg) (simp_all add: upt5 generator_def reg_def)

lemma reg_polymod_step:
  assumes "reg v"
  shows "reg (polymod_step c v)"
proof -
  have "reg (push_bit 5 (take_bit 130 c))"
    using take_bit_int_less_exp [of 130 c] by (simp add: push_bit_eq_mult reg_def)
  then show ?thesis
    unfolding polymod_step_closed
    by (intro reg_xor assms reg_gen_mask)
qed

lemma polymod_run: "bech32x_polymod vs = run 1 vs"
  by (simp add: bech32x_polymod_def run_def)

lemma run_Nil [simp]: "run c [] = c"
  by (simp add: run_def)

lemma run_Cons [simp]: "run c (v # vs) = run (polymod_step c v) vs"
  by (simp add: run_def)

lemma run_append: "run c (us @ vs) = run (run c us) vs"
  by (simp add: run_def)

lemma step_zstep: "polymod_step c v = zstep c XOR v"
  by (simp add: zstep_def polymod_step_closed xor.assoc xor.left_commute xor.commute)

lemma zstep_xor: "zstep (a XOR b) = zstep a XOR zstep b"
  unfolding zstep_def by (rule polymod_step_xor)

lemma zstep_pow_xor: "(zstep ^^ n) (a XOR b) = (zstep ^^ n) a XOR (zstep ^^ n) b"
  by (induction n) (simp_all add: zstep_xor)

lemma run_xor: "run (c XOR x) vs = run c vs XOR (zstep ^^ length vs) x"
proof (induction vs arbitrary: c x)
  case Nil then show ?case by simp
next
  case (Cons v vs)
  have "run (c XOR x) (v # vs) = run (polymod_step c v XOR zstep x) vs"
    by (simp add: polymod_step_xor zstep_def)
  also have "\<dots> = run (polymod_step c v) vs XOR (zstep ^^ length vs) (zstep x)"
    by (rule Cons.IH)
  finally show ?case by (simp add: funpow_swap1)
qed

lemma run_zeros: "run c (replicate n 0) = (zstep ^^ n) c"
  by (induction n arbitrary: c) (simp_all add: zstep_def funpow_swap1)

lemma gen_mask_0: "gen_mask 0 = 0"
  by (simp add: gen_mask_def upt5)

lemma zstep_small: "0 \<le> x \<Longrightarrow> x < 2 ^ 130 \<Longrightarrow> zstep x = push_bit 5 x"
  by (simp add: zstep_def polymod_step_closed take_bit_int_eq_self drop_bit_eq_div gen_mask_0)

lemma zstep_pow_small:
  "0 \<le> d \<Longrightarrow> d < 32 \<Longrightarrow> n \<le> 26 \<Longrightarrow> (zstep ^^ n) d = push_bit (5 * n) d"
proof (induction n)
  case 0 then show ?case by simp
next
  case (Suc n)
  have "push_bit (5 * n) d < 2 ^ (5 * n) * 2 ^ 5"
    using Suc.prems by (simp add: push_bit_eq_mult)
  also have "\<dots> = (2::int) ^ (5 * n + 5)"
    by (simp only: power_add)
  also have "\<dots> \<le> (2::int) ^ 130"
    by (rule power_increasing) (use Suc.prems in simp_all)
  finally have "push_bit (5 * n) d < 2 ^ 130" .
  moreover have "0 \<le> push_bit (5 * n) d" using Suc.prems by simp
  ultimately show ?case
    using Suc by (simp add: zstep_small push_bit_push_bit add.commute)
qed

lemma digits_Suc: "digits (Suc n) X = (drop_bit (5 * n) X AND 31) # digits n X"
  by (simp add: digits_def upt_conv_Cons map_Suc_upt [symmetric] del: upt_Suc)

lemma and_31: "(k::int) AND 31 = take_bit 5 k"
  by (simp add: take_bit_eq_mask mask_eq_exp_minus_1)

lemma digit_join:
  "push_bit (5 * n) (drop_bit (5 * n) X AND 31) XOR take_bit (5 * n) X = take_bit (5 * Suc n) (X::int)"
  unfolding and_31 by (rule bit_eqI) (auto simp add: bit_simps)

lemma digit_bounds: "0 \<le> (k::int) AND 31 \<and> k AND 31 < 32"
  unfolding and_31 using take_bit_int_less_exp [of 5 k] by simp

lemma run_digits: "n \<le> 27 \<Longrightarrow> run c (digits n X) = (zstep ^^ n) c XOR take_bit (5 * n) X"
proof (induction n arbitrary: c)
  case 0 then show ?case by (simp add: digits_def)
next
  case (Suc n)
  let ?d = "drop_bit (5 * n) X AND 31"
  have "run c (digits (Suc n) X) = run (zstep c XOR ?d) (digits n X)"
    by (simp add: digits_Suc step_zstep)
  also have "\<dots> = (zstep ^^ n) (zstep c XOR ?d) XOR take_bit (5 * n) X"
    using Suc by simp
  also have "(zstep ^^ n) (zstep c XOR ?d) = (zstep ^^ Suc n) c XOR push_bit (5 * n) ?d"
    using Suc.prems digit_bounds [of "drop_bit (5 * n) X"]
    by (simp add: zstep_pow_xor zstep_pow_small funpow_swap1)
  finally show ?case
    by (simp only: xor.assoc digit_join)
qed

lemma create_checksum_digits:
  "bech32x_create_checksum hrp data =
     digits 27 (run 1 (bech32x_hrp_expand hrp @ data @ replicate 27 0) XOR 1)"
  by (simp add: bech32x_create_checksum_def digits_def polymod_run Let_def)

lemma reg_zstep: "reg (zstep c)"
  unfolding zstep_def by (rule reg_polymod_step) (simp add: reg_def)

lemma reg_run_zeros: "reg (run c (vs @ replicate 27 0))"
proof -
  have "run c (vs @ replicate 27 0) = (zstep ^^ 27) (run c vs)"
    by (simp add: run_append run_zeros)
  also have "\<dots> = zstep ((zstep ^^ 26) (run c vs))"
    by (simp add: eval_nat_numeral)
  finally show ?thesis by (simp add: reg_zstep)
qed

lemma checksum_verifies:
  "bech32x_polymod (bech32x_hrp_expand hrp @ data @ bech32x_create_checksum hrp data) = 1"
proof -
  let ?c = "run 1 (bech32x_hrp_expand hrp @ data)"
  let ?P = "(zstep ^^ 27) ?c"
  have P: "run 1 (bech32x_hrp_expand hrp @ data @ replicate 27 0) = ?P"
    by (simp add: run_append run_zeros flip: append_assoc)
  have "?P = zstep ((zstep ^^ 26) ?c)" by (simp add: eval_nat_numeral)
  then have "reg ?P" using reg_zstep by simp
  then have "reg (?P XOR 1)" by (rule reg_xor) (simp add: reg_def)
  then have tb: "take_bit 135 (?P XOR 1) = ?P XOR 1" by (rule reg_take_bit)
  have "bech32x_polymod (bech32x_hrp_expand hrp @ data @ bech32x_create_checksum hrp data)
      = run ?c (digits 27 (?P XOR 1))"
    by (simp add: polymod_run create_checksum_digits run_zeros run_append)
  also have "\<dots> = ?P XOR take_bit (5 * 27) (?P XOR 1)"
    by (rule run_digits) simp
  also have "\<dots> = 1" using tb by (simp flip: xor.assoc)
  finally show ?thesis .
qed

lemma digit_div_mod: "drop_bit (5 * k) X AND 31 = (X::int) div 32 ^ k mod 32"
  by (simp add: and_31 take_bit_eq_mod drop_bit_eq_div power_mult)

lemma digits_sum: "(\<Sum>i<n. digits n X ! i * 32 ^ (n - 1 - i)) = X mod 32 ^ n"
proof (induction n)
  case 0 then show ?case by simp
next
  case (Suc n)
  have "(\<Sum>i<Suc n. digits (Suc n) X ! i * 32 ^ (Suc n - 1 - i))
      = (X div 32 ^ n mod 32) * 32 ^ n + (\<Sum>i<n. digits n X ! i * 32 ^ (n - 1 - i))"
    by (simp add: sum.lessThan_Suc_shift digits_Suc digit_div_mod del: sum.lessThan_Suc)
  also have "\<dots> = (X div 32 ^ n mod 32) * 32 ^ n + X mod 32 ^ n"
    by (simp only: Suc)
  also have "\<dots> = X mod (32 ^ n * 32)"
    by (subst zmod_zmult2_eq) (simp_all add: mult.commute)
  finally show ?case by (simp add: mult.commute)
qed

lemma create_checksum_range:
  "length (bech32x_create_checksum hrp data) = 27 \<and>
   list_all (\<lambda>d. 0 \<le> d \<and> d \<le> 31) (bech32x_create_checksum hrp data)"
  using digit_bounds by (simp add: create_checksum_digits digits_def list_all_iff)

text \<open>
  Claim C8. For every prefix and every list of integers as data, \<open>bech32x_create_checksum\<close>
  returns exactly 27 integers in \<open>[0, 31]\<close>; they are the 27 base-32 digits, most
  significant first, of \<open>polymod(expand(hrp) ++ data ++ 27 zeros) XOR 1\<close>, a number
  below \<open>32 ^ 27 = 2 ^ 135\<close>, so that the digits determine it.
\<close>

theorem create_checksum_digits_msb_first:
  "let X = bech32x_polymod (bech32x_hrp_expand hrp @ data @ replicate 27 0) XOR 1;
       cs = bech32x_create_checksum hrp data
   in length cs = 27 \<and> list_all (\<lambda>d. 0 \<le> d \<and> d \<le> 31) cs \<and>
      cs = map (\<lambda>i. X div 32 ^ (26 - i) mod 32) [0..<27] \<and>
      0 \<le> X \<and> X < 32 ^ 27 \<and> (\<Sum>i<27. cs ! i * 32 ^ (26 - i)) = X"
proof -
  define X where "X = bech32x_polymod (bech32x_hrp_expand hrp @ data @ replicate 27 0) XOR 1"
  define cs where "cs = bech32x_create_checksum hrp data"
  have cs: "cs = digits 27 X"
    by (simp add: cs_def X_def create_checksum_digits polymod_run)
  have len: "length cs = 27" by (simp add: cs digits_def)
  have rng: "list_all (\<lambda>d. 0 \<le> d \<and> d \<le> 31) cs"
    using digit_bounds by (simp add: cs digits_def list_all_iff)
  have dm: "cs = map (\<lambda>i. X div 32 ^ (26 - i) mod 32) [0..<27]"
    by (simp add: cs digits_def digit_div_mod)
  have "reg (run 1 ((bech32x_hrp_expand hrp @ data) @ replicate 27 0))"
    by (rule reg_run_zeros)
  then have "reg (run 1 (bech32x_hrp_expand hrp @ data @ replicate 27 0))"
    by simp
  then have "reg X" unfolding X_def polymod_run by (rule reg_xor) (simp add: reg_def)
  then have X: "0 \<le> X" "X < 32 ^ 27" by (simp_all add: reg_def)
  have "(\<Sum>i<27. cs ! i * 32 ^ (26 - i)) = X mod 32 ^ 27"
    using digits_sum [of 27 X] by (simp add: cs)
  also have "\<dots> = X" using X by simp
  finally show ?thesis
    using len rng dm X by (simp add: Let_def flip: X_def cs_def)
qed
section \<open>Structural checks and the round trip\<close>

lemma decode_structure:
  "bech32x_decode b =
    (case structure b of
       None \<Rightarrow> None
     | Some (hrp, cw) \<Rightarrow>
         if bech32x_verify_checksum hrp (map (find_char CHARSET) cw)
         then Some (hrp, take (length cw - 27) (map (find_char CHARSET) cw))
         else None)"
  by (simp add: bech32x_decode_def structure_def Let_def)

lemma correct_structure:
  "base32x_correct e b =
    (case structure b of
       None \<Rightarrow> Inr Rejected
     | Some (hrp, cw) \<Rightarrow>
         if e \<noteq> ''*'' \<and> hrp \<noteq> e then Inr Rejected
         else correct_search hrp (length (bech32x_hrp_expand hrp))
                (bech32x_hrp_expand hrp @ map (find_char CHARSET) cw)
                (syndrome (bech32x_hrp_expand hrp @ map (find_char CHARSET) cw))
                (length cw) 7)"
  by (simp add: base32x_correct_def structure_def Let_def del: correct_search.simps)

lemma CHARSET_length: "length CHARSET = 32"
  by (simp add: CHARSET_def)

lemma CHARSET_chars:
  "list_all (\<lambda>c. 33 \<le> ord c \<and> ord c \<le> 126 \<and> char_lower c = c \<and> c \<noteq> CHR ''1'') CHARSET"
  by code_simp

lemma CHARSET_find_nth: "list_all (\<lambda>d. find_char CHARSET (CHARSET ! nat d) = d) [0..31]"
  by code_simp

lemma find_char_member:
  "c \<in> set s \<Longrightarrow> 0 \<le> find_char s c \<and> find_char s c < int (length s) \<and> s ! nat (find_char s c) = c"
  by (induction s) (auto simp add: Let_def nat_add_distrib)

lemma find_char_inj:
  "a \<in> set s \<Longrightarrow> b \<in> set s \<Longrightarrow> find_char s a = find_char s b \<Longrightarrow> a = b"
  using find_char_member [of a s] find_char_member [of b s] by metis

lemma rfind_absent: "c \<notin> set s \<Longrightarrow> rfind c s = - 1"
  by (induction s) (auto simp add: Let_def)

lemma rfind_last: "c \<notin> set ys \<Longrightarrow> rfind c (xs @ c # ys) = int (length xs)"
  by (induction xs) (auto simp add: Let_def rfind_absent)

lemma rfind_split:
  "0 \<le> rfind c s \<Longrightarrow>
     s = take (nat (rfind c s)) s @ c # drop (nat (rfind c s + 1)) s \<and>
     c \<notin> set (drop (nat (rfind c s + 1)) s) \<and> rfind c s < int (length s)"
proof (induction s)
  case Nil then show ?case by simp
next
  case (Cons x s)
  show ?case
  proof (cases "0 \<le> rfind c s")
    case True
    with Cons.IH show ?thesis
      by (auto simp add: Let_def nat_add_distrib)
  next
    case False
    with Cons.prems have "x = c" by (auto simp add: Let_def split: if_splits)
    moreover from False have "c \<notin> set s" 
      using rfind_last [of c _ ] split_list_last [of c s] by fastforce
    ultimately show ?thesis using False by (auto simp add: Let_def)
  qed
qed


lemma CHARSET_D:
  assumes "c \<in> set CHARSET"
  shows "33 \<le> ord c" "ord c \<le> 126" "char_lower c = c" "c \<noteq> CHR ''1''"
  using assms CHARSET_chars by (auto simp add: list_all_iff)

lemma lower_CHARSET: "set cw \<subseteq> set CHARSET \<Longrightarrow> lower cw = cw"
  by (induction cw) (auto simp add: lower_def CHARSET_D)

lemma char_lower_sep: "char_lower (CHR ''1'') = CHR ''1''"
  by (simp add: char_lower_def ord_def)

lemma lower_append: "lower (xs @ ys) = lower xs @ lower ys"
  by (simp add: lower_def)

lemma length_lower: "length (lower s) = length s"
  by (simp add: lower_def)

lemma structure_SomeD:
  assumes "structure b = Some (hrp, cw)"
  shows "lower b = hrp @ CHR ''1'' # cw" "hrp \<noteq> []" "CHR ''1'' \<notin> set cw"
    "set cw \<subseteq> set CHARSET" "26 \<le> length cw" "length b \<le> 1023"
    "\<not> list_ex (\<lambda>x. ord x < 33 \<or> 126 < ord x) b" "lower b = b \<or> upper b = b"
proof -
  let ?pos = "rfind (CHR ''1'') (lower b)"
  from assms have chk: "\<not> list_ex (\<lambda>x. ord x < 33 \<or> 126 < ord x) b" "lower b = b \<or> upper b = b"
    and pos: "1 \<le> ?pos" "?pos + 27 \<le> int (length (lower b))" "length (lower b) \<le> 1023"
    and cs: "list_all (\<lambda>x. x \<in> set CHARSET) (drop (nat (?pos + 1)) (lower b))"
    and res: "hrp = take (nat ?pos) (lower b)" "cw = drop (nat (?pos + 1)) (lower b)"
    by (auto simp add: structure_def Let_def split: if_splits)
  from pos have "0 \<le> ?pos" by simp
  from rfind_split [OF this] res
  show "lower b = hrp @ CHR ''1'' # cw" "CHR ''1'' \<notin> set cw" by simp_all
  from res pos show "hrp \<noteq> []" by auto
  from cs res show "set cw \<subseteq> set CHARSET" by (auto simp add: list_all_iff)
  from res pos show "26 \<le> length cw" by simp
  from pos show "length b \<le> 1023" by (simp add: length_lower)
  from chk show "\<not> list_ex (\<lambda>x. ord x < 33 \<or> 126 < ord x) b" "lower b = b \<or> upper b = b" by simp_all
qed

lemma structure_SomeI:
  assumes "\<not> list_ex (\<lambda>x. ord x < 33 \<or> 126 < ord x) b" "lower b = b \<or> upper b = b"
    and "lower b = hrp @ CHR ''1'' # cw" "hrp \<noteq> []" "set cw \<subseteq> set CHARSET"
    and "26 \<le> length cw" "length b \<le> 1023"
  shows "structure b = Some (hrp, cw)"
proof -
  have "CHR ''1'' \<notin> set cw" using assms(5) CHARSET_D(4) by blast
  then have pos: "rfind (CHR ''1'') (hrp @ CHR ''1'' # cw) = int (length hrp)"
    by (rule rfind_last)
  have n: "nat (int (length hrp) + 1) = Suc (length hrp)" "nat (int (length hrp)) = length hrp"
    by simp_all
  have lb: "length hrp + length cw \<le> 1022"
    using arg_cong [OF assms(3), of length] assms(7) by (simp add: length_lower)
  have c1: "\<not> (list_ex (\<lambda>x. ord x < 33 \<or> 126 < ord x) b \<or> (lower b \<noteq> b \<and> upper b \<noteq> b))"
    using assms(1,2) by blast
  have c2: "list_all (\<lambda>x. x \<in> set CHARSET) cw"
    using assms(5) by (auto simp add: list_all_iff)
  have "0 < length hrp" using assms(4) by simp
  then show ?thesis
    using assms(6) lb c2
    by (subst structure_def, subst if_not_P [OF c1]) (simp add: Let_def assms(3) pos nat_add_distrib)
qed

lemma charset_join_symbols:
  "list_all (\<lambda>d. 0 \<le> d \<and> d \<le> 31) xs \<Longrightarrow> charset_join xs = Inr (map (\<lambda>d. CHARSET ! nat d) xs)"
  by (induction xs) (simp_all add: charset_at_def)

lemma find_char_nth:
  assumes "0 \<le> d" "d \<le> 31"
  shows "find_char CHARSET (CHARSET ! nat d) = d"
proof -
  from assms have "d \<in> set [0..31]" by simp
  with CHARSET_find_nth show ?thesis unfolding list_all_iff by blast
qed

lemma nth_CHARSET: "0 \<le> d \<Longrightarrow> d \<le> 31 \<Longrightarrow> CHARSET ! nat d \<in> set CHARSET"
  by (simp add: CHARSET_length)

lemma range_hrp: "list_all (\<lambda>x. 33 \<le> ord x \<and> ord x \<le> 126) s \<longleftrightarrow> \<not> list_ex (\<lambda>x. ord x < 33 \<or> 126 < ord x) s"
  by (auto simp add: list_all_iff list_ex_iff not_less)

text \<open>
  Claim C1 (amended). For every prefix of at least one character, all in \<open>[33, 126]\<close> and
  none an upper-case letter, and all data symbols in \<open>[0, 31]\<close> such that the encoded
  string has at most 1023 characters, \<open>bech32x_encode\<close> returns a string and
  \<open>bech32x_decode\<close> of that string returns the prefix and the data symbols.
\<close>

theorem encode_decode_roundtrip:
  assumes "hrp \<noteq> []" and "list_all (\<lambda>x. 33 \<le> ord x \<and> ord x \<le> 126) hrp" and "lower hrp = hrp"
    and "list_all (\<lambda>d. 0 \<le> d \<and> d \<le> 31) data"
    and "length hrp + 1 + length data + 27 \<le> 1023"
  shows "\<exists>s. bech32x_encode hrp data = Inr s \<and> bech32x_decode s = Some (hrp, data)"
proof -
  let ?cs = "bech32x_create_checksum hrp data"
  let ?cw = "map (\<lambda>d. CHARSET ! nat d) (data @ ?cs)"
  let ?s = "hrp @ CHR ''1'' # ?cw"
  have cs: "length ?cs = 27" "list_all (\<lambda>d. 0 \<le> d \<and> d \<le> 31) ?cs"
    using create_checksum_range [of hrp data] by simp_all
  have all: "list_all (\<lambda>d. 0 \<le> d \<and> d \<le> 31) (data @ ?cs)"
    using assms(4) cs(2) by simp
  have enc: "bech32x_encode hrp data = Inr ?s"
    by (simp add: bech32x_encode_def charset_join_symbols [OF all])
  have sub: "set ?cw \<subseteq> set CHARSET"
    using all by (auto simp add: list_all_iff nth_CHARSET)
  have "lower ?s = lower hrp @ char_lower (CHR ''1'') # lower ?cw"
    by (simp add: lower_def)
  also have "\<dots> = ?s"
    by (simp only: assms(3) char_lower_sep lower_CHARSET [OF sub])
  finally have low: "lower ?s = ?s" .
  have rng: "\<not> list_ex (\<lambda>x. ord x < 33 \<or> 126 < ord x) ?s"
    using assms(2) sub CHARSET_D(1,2) by (auto simp add: list_all_iff list_ex_iff ord_def not_less)
  have st: "structure ?s = Some (hrp, ?cw)"
    using rng low assms(1,5) sub cs(1) by (intro structure_SomeI) simp_all
  have sym: "map (find_char CHARSET) ?cw = data @ ?cs"
    using all by (induction "data @ ?cs") (simp_all add: find_char_nth map_idI list_all_iff)
  have v: "bech32x_verify_checksum hrp (map (find_char CHARSET) ?cw)"
    unfolding sym bech32x_verify_checksum_def by (rule checksum_verifies)
  have t: "take (length ?cw - 27) (map (find_char CHARSET) ?cw) = data"
    unfolding sym using cs(1) by simp
  have "bech32x_decode ?s = Some (hrp, data)"
    by (simp only: decode_structure st option.case prod.case v if_True t)
  with enc show ?thesis by blast
qed

text \<open>The round trip at the prefix \<open>a\<close> and the data symbols 1, 2, 3.\<close>

theorem encode_decode_roundtrip_witness:
  "bech32x_encode ''a'' [1, 2, 3] = Inr ''a1pzrdhf4l2gnyp7202m4kkk64wuucps'' \<and>
   bech32x_decode ''a1pzrdhf4l2gnyp7202m4kkk64wuucps'' = Some (''a'', [1, 2, 3])"
proof -
  have e: "bech32x_encode ''a'' [1, 2, 3] = Inr ''a1pzrdhf4l2gnyp7202m4kkk64wuucps''"
    by code_simp
  have "\<exists>s. bech32x_encode ''a'' [1, 2, 3] = Inr s \<and> bech32x_decode s = Some (''a'', [1, 2, 3])"
    by (rule encode_decode_roundtrip) (simp_all add: lower_def char_lower_def ord_def)
  with e show ?thesis by simp
qed

text \<open>
  Claim C1 as stated fails at the upper-case prefix \<open>A\<close> with no data: the encoded string
  mixes the upper-case prefix with lower-case symbols, and strict decoding rejects it.
\<close>

theorem roundtrip_uppercase_counterexample:
  "bech32x_encode ''A'' [] = Inr ''A1uvtvscxxkxdw7szp0kt9kexd3ju'' \<and>
   bech32x_decode ''A1uvtvscxxkxdw7szp0kt9kexd3ju'' = None"
  by code_simp
section \<open>The field tables, the solver and the search loop\<close>

lemma concat_nth:
  assumes "0 < k" and "list_all (\<lambda>r. length r = k) (take (n div k) xss)"
    and "n div k < length xss" and "n mod k < length (xss ! (n div k))"
  shows "concat xss ! n = xss ! (n div k) ! (n mod k)"
  using assms(2-)
proof (induction xss arbitrary: n)
  case Nil then show ?case by simp
next
  case (Cons r xss)
  show ?case
  proof (cases "n div k")
    case 0
    with assms(1) have "n < k" by (simp add: div_eq_0_iff)
    with Cons.prems 0 have "n < length r" by simp
    with 0 \<open>n < k\<close> show ?thesis by (simp add: nth_append)
  next
    case (Suc q)
    with Cons.prems have r: "length r = k" by simp
    from Suc assms(1) have n: "k \<le> n"
      by (metis div_less not_le old.nat.distinct(2))
    then have d: "(n - k) div k = q" "(n - k) mod k = n mod k"
      using Suc le_div_geq [OF assms(1), of n] by (simp_all add: le_mod_geq)
    have "concat xss ! (n - k) = xss ! ((n - k) div k) ! ((n - k) mod k)"
      using Cons.prems Suc by (intro Cons.IH) (simp_all add: d)
    with r n Suc d show ?thesis by (simp add: nth_append)
  qed
qed

lemma EXP_concat: "EXP = concat EXP_rows"
  by (simp add: EXP_def EXP_rows_def)

lemma LOG_concat: "LOG = concat LOG_rows"
  by (simp add: LOG_def LOG_rows_def)

lemma EXP_rows_shape:
  "length EXP_rows = 32 \<and> list_all (\<lambda>r. length r = 32) (take 31 EXP_rows) \<and> length (EXP_rows ! 31) = 31"
  by (simp add: EXP_rows_def)

lemma LOG_rows_shape: "length LOG_rows = 32 \<and> list_all (\<lambda>r. length r = 32) LOG_rows"
  by (simp add: LOG_rows_def)

lemma EXP_nth_rows:
  assumes "k < 1023"
  shows "EXP ! k = EXP_rows ! (k div 32) ! (k mod 32)"
  unfolding EXP_concat
proof (rule concat_nth)
  show "0 < (32::nat)" by simp
  have k31: "k div 32 \<le> 31"
    using assms by simp
  show "list_all (\<lambda>r. length r = 32) (take (k div 32) EXP_rows)"
    using EXP_rows_shape set_take_subset_set_take [OF k31, of EXP_rows]
    by (auto simp add: list_all_iff)
  show "k div 32 < length EXP_rows" using assms EXP_rows_shape by simp
  show "k mod 32 < length (EXP_rows ! (k div 32))"
  proof (cases "k div 32 = 31")
    case True
    with assms have "k mod 32 < 31" by presburger
    with True EXP_rows_shape show ?thesis by simp
  next
    case False
    with assms have "k div 32 < 31" by simp
    then have "EXP_rows ! (k div 32) \<in> set (take 31 EXP_rows)"
      using EXP_rows_shape by (auto simp add: in_set_conv_nth)
    with EXP_rows_shape have "length (EXP_rows ! (k div 32)) = 32"
      unfolding list_all_iff by blast
    then show ?thesis by simp
  qed
qed

lemma LOG_nth_rows:
  assumes "n < 1024"
  shows "LOG ! n = LOG_rows ! (n div 32) ! (n mod 32)"
  unfolding LOG_concat
proof (rule concat_nth)
  show "0 < (32::nat)" by simp
  show "list_all (\<lambda>r. length r = 32) (take (n div 32) LOG_rows)"
    using LOG_rows_shape by (auto simp add: list_all_iff dest: in_set_takeD)
  show d: "n div 32 < length LOG_rows" using assms LOG_rows_shape by simp
  then have "LOG_rows ! (n div 32) \<in> set LOG_rows" by simp
  with LOG_rows_shape have "length (LOG_rows ! (n div 32)) = 32"
    unfolding list_all_iff by blast
  then show "n mod 32 < length (LOG_rows ! (n div 32))" by simp
qed

text \<open>Evaluation reads the tables through their rows.\<close>

lemma EXP_at_code [code]:
  "EXP_at k =
    (if 0 \<le> k \<and> k < 1023 then EXP_rows ! nat (k div 32) ! nat (k mod 32) else EXP ! nat k)"
  by (simp add: EXP_at_def EXP_nth_rows nat_less_iff nat_div_distrib nat_mod_distrib)

lemma LOG_at_code [code]:
  "LOG_at a =
    (if 0 \<le> a \<and> a < 1024 then LOG_rows ! nat (a div 32) ! nat (a mod 32) else LOG ! nat a)"
  by (simp add: LOG_at_def LOG_nth_rows nat_less_iff nat_div_distrib nat_mod_distrib)

lemma EXP_length: "length EXP = 1023"
  by (simp add: EXP_def)

lemma EXP_range: "list_all (\<lambda>x. 1 \<le> x \<and> x \<le> 1023) EXP"
  by (simp add: EXP_def)

lemma shift_range: "0 \<le> shift a e \<and> shift a e \<le> 1023"
proof (cases "a = 0")
  case True then show ?thesis by (simp add: shift_def)
next
  case False
  let ?k = "nat ((LOG_at a + e) mod 1023)"
  have "?k < length EXP" by (simp add: EXP_length)
  then have "EXP ! ?k \<in> set EXP" by simp
  with EXP_range have "1 \<le> EXP ! ?k \<and> EXP ! ?k \<le> 1023"
    unfolding list_all_iff by blast
  with False show ?thesis by (simp add: shift_def EXP_at_def)
qed

lemma shift_zero [simp]: "shift 0 e = 0"
  by (simp add: shift_def)

lemma polyeval_one: "polyeval [1] l = 1"
  by (simp add: polyeval_def)

lemma fold_collect:
  "fold (\<lambda>p ret. if P p then ret @ [g p] else ret) xs acc = acc @ map g (filter P xs)"
  by (induction xs arbitrary: acc) simp_all

lemma forney_roots:
  "forney lam lamd om siz =
     map (\<lambda>p. (p, shift (polyeval om (- int p)) (- (19 * int p + LOG_at (polyeval lamd (- int p))))))
       (filter (\<lambda>p. polyeval lam (- int p) = 0) [0..<siz])"
  unfolding forney_def by (subst fold_collect) simp

lemma solver_no_errors: "bech32x_solver s siz 0 = Some []"
  by (simp add: bech32x_solver_def solver_gauss_def solver_matrix_def locator_def forney_roots polyeval_one)

lemma gauss_zero_syndrome: "list_all (\<lambda>t. solver_gauss (replicate 14 0) t = None) [1..<8]"
  by code_simp

lemma solver_zero_syndrome:
  assumes "1 \<le> t" "t \<le> 7"
  shows "bech32x_solver (replicate 14 0) siz t = None"
proof -
  from assms have "t \<in> set [1..<8]" by simp
  with gauss_zero_syndrome have "solver_gauss (replicate 14 0) t = None"
    unfolding list_all_iff by blast
  then show ?thesis by (simp add: bech32x_solver_def)
qed

lemma syndrome_of_zero_residue:
  "fold (\<lambda>v syn. map (\<lambda>i. shift (syn ! i) (20 + int i) XOR v) [0..<14])
     (replicate 27 0) (replicate 14 0) = replicate 14 0"
  by code_simp

lemma syndrome_valid:
  assumes "bech32x_polymod values = 1"
  shows "syndrome values = replicate 14 0"
proof -
  have "residue_digits values = replicate 27 0"
    by (simp add: residue_digits_def assms map_replicate_const)
  then show ?thesis
    by (simp only: syndrome_def syndrome_of_zero_residue)
qed

declare correct_search.simps [simp del]

lemma correct_search_singular:
  "bech32x_solver syn siz (Suc i) = None \<Longrightarrow>
     correct_search h n values syn siz (Suc i) = correct_search h n values syn siz i"
  by (subst correct_search.simps) simp

lemma correct_search_mismatch:
  "bech32x_solver syn siz i = Some ret \<Longrightarrow> length ret \<noteq> i \<Longrightarrow>
     correct_search h n values syn siz i = Inr Rejected"
  by (subst correct_search.simps) simp

lemma correct_search_match:
  "bech32x_solver syn siz i = Some ret \<Longrightarrow> length ret = i \<Longrightarrow>
     correct_search h n values syn siz i =
       (case charset_join (drop n (apply_errors ret values)) of
          Inl e \<Rightarrow> Inl e
        | Inr str \<Rightarrow>
            Inr (Corrected h
                  (drop n (take (length (apply_errors ret values) - 27) (apply_errors ret values)))
                  str (map (\<lambda>(p, e). int siz - 1 - int p) ret)))"
  by (subst correct_search.simps) (simp add: Let_def)

lemma correct_search_descend:
  "t \<le> i \<Longrightarrow> (\<forall>t'. t < t' \<and> t' \<le> i \<longrightarrow> bech32x_solver syn siz t' = None) \<Longrightarrow>
     correct_search h n values syn siz i = correct_search h n values syn siz t"
proof (induction i)
  case 0 then show ?case by simp
next
  case (Suc i)
  show ?case
  proof (cases "t = Suc i")
    case True then show ?thesis by simp
  next
    case False
    with Suc.prems have "t \<le> i" and "bech32x_solver syn siz (Suc i) = None" by auto
    with Suc show ?thesis by (simp add: correct_search_singular)
  qed
qed

lemma apply_errors_Nil: "apply_errors [] values = values"
  by (simp add: apply_errors_def)

lemma drop_take_data:
  "drop (length ext) (take (length (ext @ d) - 27) (ext @ d)) = take (length d - 27) d"
proof -
  have "length (ext @ d) - 27 - length ext = length d - 27" by simp
  then show ?thesis by (subst drop_take) simp
qed

lemma correct_search_zero_syndrome:
  "correct_search hrpgot n values (replicate 14 0) siz 7 =
     (case charset_join (drop n values) of
        Inl e \<Rightarrow> Inl e
      | Inr str \<Rightarrow> Inr (Corrected hrpgot (drop n (take (length values - 27) values)) str []))"
proof -
  have "correct_search hrpgot n values (replicate 14 0) siz 7 =
        correct_search hrpgot n values (replicate 14 0) siz 0"
    by (rule correct_search_descend) (simp_all add: solver_zero_syndrome)
  also have "\<dots> = (case charset_join (drop n values) of
        Inl e \<Rightarrow> Inl e
      | Inr str \<Rightarrow> Inr (Corrected hrpgot (drop n (take (length values - 27) values)) str []))"
    using correct_search_match [OF solver_no_errors, of hrpgot n "values" "replicate 14 0" siz]
    by (simp add: apply_errors_Nil cong: sum.case_cong)
  finally show ?thesis .
qed

lemma charset_join_find:
  "set cw \<subseteq> set CHARSET \<Longrightarrow> charset_join (map (find_char CHARSET) cw) = Inr cw"
proof (induction cw)
  case Nil then show ?case by simp
next
  case (Cons c cw)
  from Cons.prems have "c \<in> set CHARSET" by simp
  from find_char_member [OF this]
  have "charset_at (find_char CHARSET c) = Inr c"
    by (simp add: charset_at_def CHARSET_length)
  with Cons show ?case by simp
qed

text \<open>
  Claim C3 (amended). For every string that strict decoding accepts, \<open>base32x_correct\<close>
  with the wildcard or with the decoded (lower-case) prefix as expected prefix returns that
  prefix, the decoded data symbols, an empty list of corrected positions, and as
  re-encoded string the characters after the separator of the case-normalised input:
  the prefix and the separator are not part of it.
\<close>

theorem correct_valid_string:
  assumes "bech32x_decode b = Some (hrp, data)" and "e = ''*'' \<or> e = hrp"
  shows "base32x_correct e b = Inr (Corrected hrp data (drop (length hrp + 1) (lower b)) []) \<and>
         lower b = hrp @ ''1'' @ drop (length hrp + 1) (lower b)"
proof -
  from assms(1) obtain cw where st: "structure b = Some (hrp, cw)"
    and v: "bech32x_verify_checksum hrp (map (find_char CHARSET) cw)"
    and d: "data = take (length cw - 27) (map (find_char CHARSET) cw)"
    by (auto simp add: decode_structure split: option.splits if_splits)
  let ?ext = "bech32x_hrp_expand hrp"
  let ?vals = "?ext @ map (find_char CHARSET) cw"
  note sd = structure_SomeD [OF st]
  have syn: "syndrome ?vals = replicate 14 0"
    using v by (intro syndrome_valid) (simp add: bech32x_verify_checksum_def)
  have dt: "drop (length ?ext) (take (length ?vals - 27) ?vals) = data"
    unfolding d by (subst drop_take_data) simp
  have "correct_search hrp (length ?ext) ?vals (syndrome ?vals) (length cw) 7 =
          Inr (Corrected hrp data cw [])"
    unfolding syn correct_search_zero_syndrome dt
    by (simp add: charset_join_find [OF sd(4)])
  then have "base32x_correct e b = Inr (Corrected hrp data cw [])"
    using assms(2) by (auto simp add: correct_structure st)
  moreover have "drop (length hrp + 1) (lower b) = cw"
    by (simp add: sd(1))
  moreover have "lower b = hrp @ ''1'' @ cw"
    by (simp add: sd(1))
  ultimately show ?thesis by simp
qed

text \<open>An upper-case valid string: the result is the lower-case codeword part.\<close>

theorem correct_valid_string_witness:
  "bech32x_decode ''A18W7M4GKM2AX3VWX7LE6JCSWYN9C'' = Some (''a'', []) \<and>
   base32x_correct ''*'' ''A18W7M4GKM2AX3VWX7LE6JCSWYN9C'' =
     Inr (Corrected ''a'' [] ''8w7m4gkm2ax3vwx7le6jcswyn9c'' [])"
proof -
  have d: "bech32x_decode ''A18W7M4GKM2AX3VWX7LE6JCSWYN9C'' = Some (''a'', [])"
    by code_simp
  have l: "drop (length ''a'' + 1) (lower ''A18W7M4GKM2AX3VWX7LE6JCSWYN9C'') = ''8w7m4gkm2ax3vwx7le6jcswyn9c''"
    by code_simp
  from correct_valid_string [OF d, of "''*''"] d show ?thesis
    by (simp only: l) simp
qed

text \<open>
  Claim C3 as stated fails at the valid lower-case string \<open>a18w7m4gkm2ax3vwx7le6jcswyn9c\<close>:
  the re-encoded string that is returned lacks the prefix and the separator, so it is
  not the input string.
\<close>

theorem correct_returns_codeword_only_counterexample:
  "bech32x_decode ''a18w7m4gkm2ax3vwx7le6jcswyn9c'' = Some (''a'', []) \<and>
   base32x_correct ''*'' ''a18w7m4gkm2ax3vwx7le6jcswyn9c'' =
     Inr (Corrected ''a'' [] ''8w7m4gkm2ax3vwx7le6jcswyn9c'' []) \<and>
   ''8w7m4gkm2ax3vwx7le6jcswyn9c'' \<noteq> ''a18w7m4gkm2ax3vwx7le6jcswyn9c''"
  by code_simp

text \<open>
  Claim C6. For a well-formed input with an accepted prefix, in the search over the error
  counts from 7 down to 0: when the linear system for an error count is singular (the
  solver returns \<open>None\<close>) the loop goes on with the next smaller count; and when the
  largest count \<open>t\<close> whose system is solved yields a number of roots other than \<open>t\<close>,
  the decoder returns the failure tuple at once, whatever a smaller count would give.
\<close>

theorem descending_search:
  assumes "structure b = Some (hrp, cw)" and "e = ''*'' \<or> e = hrp"
    and "values = bech32x_hrp_expand hrp @ map (find_char CHARSET) cw"
  shows "(bech32x_solver (syndrome values) (length cw) (Suc i) = None \<longrightarrow>
            correct_search hrp (length (bech32x_hrp_expand hrp)) values (syndrome values) (length cw) (Suc i) =
            correct_search hrp (length (bech32x_hrp_expand hrp)) values (syndrome values) (length cw) i) \<and>
         (t \<le> 7 \<and> (\<forall>t'. t < t' \<and> t' \<le> 7 \<longrightarrow> bech32x_solver (syndrome values) (length cw) t' = None) \<and>
          bech32x_solver (syndrome values) (length cw) t = Some ret \<and> length ret \<noteq> t \<longrightarrow>
            base32x_correct e b = Inr Rejected)"
proof (intro conjI impI)
  assume "bech32x_solver (syndrome values) (length cw) (Suc i) = None"
  then show "correct_search hrp (length (bech32x_hrp_expand hrp)) values (syndrome values) (length cw) (Suc i) =
            correct_search hrp (length (bech32x_hrp_expand hrp)) values (syndrome values) (length cw) i"
    by (rule correct_search_singular)
next
  assume "t \<le> 7 \<and> (\<forall>t'. t < t' \<and> t' \<le> 7 \<longrightarrow> bech32x_solver (syndrome values) (length cw) t' = None) \<and>
          bech32x_solver (syndrome values) (length cw) t = Some ret \<and> length ret \<noteq> t"
  then have a: "t \<le> 7" "\<forall>t'. t < t' \<and> t' \<le> 7 \<longrightarrow> bech32x_solver (syndrome values) (length cw) t' = None"
    "bech32x_solver (syndrome values) (length cw) t = Some ret" "length ret \<noteq> t"
    by blast+
  have "base32x_correct e b =
        correct_search hrp (length (bech32x_hrp_expand hrp)) values (syndrome values) (length cw) 7"
    using assms by (auto simp add: correct_structure)
  also have "\<dots> = correct_search hrp (length (bech32x_hrp_expand hrp)) values (syndrome values) (length cw) t"
    by (rule correct_search_descend [OF a(1,2)])
  also have "\<dots> = Inr Rejected"
    by (rule correct_search_mismatch [OF a(3,4)])
  finally show "base32x_correct e b = Inr Rejected" .
qed


section \<open>The evaluator, short codewords, the zero error count and the byte wrapper\<close>

lemma fold_keeps_length:
  "(\<And>x r. length (F x r) = length r) \<Longrightarrow> length (fold F xs r) = length r"
  by (induction xs arbitrary: r) simp_all

lemma polymul_length: "length (polymul a b) = length a + length b - 1"
  unfolding polymul_def
  by (subst fold_keeps_length) (simp_all add: Let_def fold_keeps_length)

text \<open>
  Claim C7 (amended). In the Forney step the error evaluator is the product of the syndrome
  polynomial and the locator truncated to its first 13 coefficients, one fewer than the
  14 syndromes: every magnitude the solver returns is computed from that polynomial.
\<close>

theorem evaluator_thirteen_coefficients:
  assumes "bech32x_solver s siz err = Some ret"
  shows "\<exists>m. solver_gauss s err = Some m \<and>
    ret = map (\<lambda>p. (p, shift (polyeval (take 13 (polymul s (locator m err))) (- int p))
                         (- (19 * int p + LOG_at (polyeval (locator_derivative m err) (- int p))))))
            (filter (\<lambda>p. polyeval (locator m err) (- int p) = 0) [0..<siz]) \<and>
    (length s = 14 \<longrightarrow> length (take 13 (polymul s (locator m err))) = 13)"
proof -
  from assms obtain m where m: "solver_gauss s err = Some m"
    and ret: "ret = forney (locator m err) (locator_derivative m err) (evaluator s (locator m err)) siz"
    by (auto simp add: bech32x_solver_def Let_def split: option.splits)
  have "length s = 14 \<longrightarrow> length (take 13 (polymul s (locator m err))) = 13"
    by (simp add: polymul_length locator_def)
  with m ret show ?thesis
    by (simp add: forney_roots evaluator_def)
qed

text \<open>The solver at a syndrome with one root, at position 0.\<close>

theorem evaluator_thirteen_coefficients_witness:
  "bech32x_solver [1, 1, 0, 0, 0, 0, 0, 0, 0, 0, 0, 0, 0, 1] 1 1 = Some [(0, 0)] \<and>
   (\<exists>m. solver_gauss [1, 1, 0, 0, 0, 0, 0, 0, 0, 0, 0, 0, 0, 1] 1 = Some m \<and>
     [(0, 0)] = map (\<lambda>p. (p, shift (polyeval (take 13 (polymul [1, 1, 0, 0, 0, 0, 0, 0, 0, 0, 0, 0, 0, 1] (locator m 1))) (- int p))
                         (- (19 * int p + LOG_at (polyeval (locator_derivative m 1) (- int p))))))
            (filter (\<lambda>p. polyeval (locator m 1) (- int p) = 0) [0..<1]) \<and>
     length (take 13 (polymul [1, 1, 0, 0, 0, 0, 0, 0, 0, 0, 0, 0, 0, 1] (locator m 1))) = 13)"
proof -
  have e: "bech32x_solver [1, 1, 0, 0, 0, 0, 0, 0, 0, 0, 0, 0, 0, 1] 1 1 = Some [(0, 0)]"
    by code_simp
  from evaluator_thirteen_coefficients [OF e] e show ?thesis
    by simp
qed

text \<open>
  Claim C7 as stated fails at the syndrome \<open>[1, 1, 0, \<dots>, 0, 1]\<close> with one hypothesised
  error: the evaluator has 13 coefficients and is not the product truncated to 14, and the
  magnitude that the solver returns for the root at position 0 is 0, where the product
  truncated to 14 coefficients gives 1.
\<close>

theorem evaluator_fourteen_counterexample:
  "evaluator [1, 1, 0, 0, 0, 0, 0, 0, 0, 0, 0, 0, 0, 1] [1, 1] = [1, 0, 1, 0, 0, 0, 0, 0, 0, 0, 0, 0, 0] \<and>
   take 14 (polymul [1, 1, 0, 0, 0, 0, 0, 0, 0, 0, 0, 0, 0, 1] [1, 1]) = [1, 0, 1, 0, 0, 0, 0, 0, 0, 0, 0, 0, 0, 1] \<and>
   solver_gauss [1, 1, 0, 0, 0, 0, 0, 0, 0, 0, 0, 0, 0, 1] 1 = Some [[1, 1]] \<and>
   locator [[1, 1]] 1 = [1, 1] \<and>
   bech32x_solver [1, 1, 0, 0, 0, 0, 0, 0, 0, 0, 0, 0, 0, 1] 1 1 = Some [(0, 0)] \<and>
   shift (polyeval (take 14 (polymul [1, 1, 0, 0, 0, 0, 0, 0, 0, 0, 0, 0, 0, 1] [1, 1])) 0)
     (- (19 * 0 + LOG_at (polyeval (locator_derivative [[1, 1]] 1) 0))) = 1"
  by code_simp

text \<open>
  Claim C4 at the string \<open>o1qajt00ak7krvyflyj0ujqgdhrh\<close>, which has 26 characters after its
  only separator: both decoders pass the length check \<open>pos + 27 > len(bech)\<close>, compute
  the checksum and accept the string.
\<close>

theorem short_codeword_accepted:
  "length ''qajt00ak7krvyflyj0ujqgdhrh'' = 26 \<and>
   bech32x_decode ''o1qajt00ak7krvyflyj0ujqgdhrh'' = Some (''o'', []) \<and>
   base32x_correct ''*'' ''o1qajt00ak7krvyflyj0ujqgdhrh'' =
     Inr (Corrected ''o'' [] ''qajt00ak7krvyflyj0ujqgdhrh'' [])"
  by code_simp

text \<open>
  Claim C2 at the string \<open>a18w7m4gkm2ax3dmf3sd65xdr2nxh\<close>: its syndrome is not zero and
  strict decoding rejects it, but the first seven syndromes are zero, every system for
  7 down to 1 errors is singular, and the count 0 is accepted without a look at the
  syndrome: \<open>base32x_correct\<close> returns it as valid with no corrected position.
\<close>

theorem invalid_codeword_accepted:
  "syndrome (bech32x_hrp_expand ''a'' @ map (find_char CHARSET) ''8w7m4gkm2ax3dmf3sd65xdr2nxh'') =
     [0, 0, 0, 0, 0, 0, 0, 451, 413, 58, 523, 112, 912, 9] \<and>
   bech32x_decode ''a18w7m4gkm2ax3dmf3sd65xdr2nxh'' = None \<and>
   base32x_correct ''*'' ''a18w7m4gkm2ax3dmf3sd65xdr2nxh'' =
     Inr (Corrected ''a'' [] ''8w7m4gkm2ax3dmf3sd65xdr2nxh'' [])"
  by code_simp

text \<open>A value outside \<open>[0, 255]\<close> makes \<open>convertbits\<close> return \<open>None\<close>, and \<open>encode\<close> raise.\<close>

lemma convert_value_None: "fold (convert_value f t) data None = None"
  by (induction data) (simp_all add: convert_value_def)

lemma convertbits_out_of_range:
  assumes "list_ex (\<lambda>v. v < 0 \<or> 255 < v) data"
  shows "convertbits data 8 5 pad = None"
proof -
  have "fold (convert_value 8 5) data st = None" for st
    using assms
  proof (induction data arbitrary: st)
    case Nil then show ?case by simp
  next
    case (Cons v data)
    show ?case
    proof (cases "v < 0 \<or> 255 < v")
      case True
      then have "v < 0 \<or> drop_bit 8 v \<noteq> 0"
        by (auto simp add: drop_bit_eq_div)
      then have "convert_value 8 5 v st = None"
        by (auto simp add: convert_value_def split: option.splits)
      then show ?thesis by (simp add: convert_value_None)
    next
      case False
      with Cons.prems have "list_ex (\<lambda>v. v < 0 \<or> 255 < v) data" by simp
      then show ?thesis by (simp add: Cons.IH)
    qed
  qed
  then show ?thesis by (simp add: convertbits_def)
qed

lemma encode_out_of_range:
  "list_ex (\<lambda>v. v < 0 \<or> 255 < v) data \<Longrightarrow> encode hrp data = Inl TypeError"
  by (simp add: encode_def convertbits_out_of_range)

text \<open>
  Claim C9 at \<open>encode("tx", [256])\<close>: \<open>convertbits\<close> returns \<open>None\<close>, which \<open>encode\<close>
  passes on unchecked, and the call ends in a \<open>TypeError\<close> instead of a result value.
\<close>

theorem encode_raises_type_error:
  "convertbits [256] 8 5 True = None \<and> encode ''tx'' [256] = Inl TypeError"
  by code_simp

end
